theory Spec2Isabelle
  imports Main
begin

section \<open>Data model of the interview session service\<close>

text \<open>
  The embedding follows \<^verbatim>\<open>InterviewSessionService.java\<close>. Java \<^verbatim>\<open>int\<close> indices are
  modelled as \<^typ>\<open>int\<close>: the only arithmetic on them is \<^verbatim>\<open>index + 1\<close> behind the
  guard \<^verbatim>\<open>index < questions.size()\<close>, so no 32-bit wrap-around can occur. A nullable
  reference is an \<^typ>\<open>'a option\<close>; a thrown exception is the \<open>Inl\<close> branch of a sum.
\<close>

datatype SessionStatus = CREATED | IN_PROGRESS | COMPLETED | EVALUATED

datatype EntityStatus = E_CREATED | E_IN_PROGRESS | E_COMPLETED | E_EVALUATED

datatype ErrorCode =
    INTERVIEW_SESSION_NOT_FOUND
  | INTERVIEW_QUESTION_NOT_FOUND
  | INTERVIEW_ALREADY_COMPLETED
  | INTERVIEW_NOT_COMPLETED

text \<open>
  What a service method can throw: a \<^verbatim>\<open>BusinessException\<close> with its error code, the
  failure of one of the two external collaborators (propagated, never caught), or the
  \<^verbatim>\<open>IndexOutOfBoundsException\<close> of \<^verbatim>\<open>List.get\<close>.
\<close>

datatype Failure =
    BusinessException ErrorCode
  | GenerationFailed
  | EvaluationFailed
  | IndexOutOfBounds

text \<open>
  Modelled from the spec: the record \<^verbatim>\<open>InterviewQuestionDTO\<close> is declared outside the
  service class. The spec gives a question its 0-based position, a category label, the
  prompt text and an optional user answer that is absent until saved or submitted;
  \<^verbatim>\<open>withAnswer\<close> returns the copy that carries the answer.
\<close>

record InterviewQuestionDTO =
  questionIndex :: int
  question :: string
  category :: string
  userAnswer :: "string option"

definition withAnswer :: "InterviewQuestionDTO \<Rightarrow> string \<Rightarrow> InterviewQuestionDTO" where
  "withAnswer q a = q\<lparr>userAnswer := Some a\<rparr>"

text \<open>
  The private class \<^verbatim>\<open>InterviewSession\<close>. Its question list is updated in place and
  its last two fields are assigned; the other fields are final.
\<close>

record InterviewSession =
  sessionId :: string
  resumeText :: string
  resumeId :: "int option"
  questions :: "InterviewQuestionDTO list"
  currentIndex :: int
  status :: SessionStatus

text \<open>
  The session view and the request and response records, with the components the service
  passes to their constructors and reads through their accessors.
\<close>

record InterviewSessionDTO =
  dto_sessionId :: string
  dto_resumeText :: string
  dto_totalQuestions :: int
  dto_currentQuestionIndex :: int
  dto_questions :: "InterviewQuestionDTO list"
  dto_status :: SessionStatus

record CreateInterviewRequest =
  req_resumeText :: string
  req_questionCount :: int
  req_resumeId :: "int option"

record SubmitAnswerRequest =
  sa_sessionId :: string
  sa_questionIndex :: int
  sa_answer :: string

record SubmitAnswerResponse =
  hasNextQuestion :: bool
  nextQuestion :: "InterviewQuestionDTO option"
  resp_currentIndex :: int
  totalQuestions :: int

text \<open>
  Modelled from the spec: \<^verbatim>\<open>InterviewReportDTO\<close> is declared outside the service class.
  The spec's report has an overall score and a per-question detail that echoes the
  question and its answer.
\<close>

record QuestionEvaluation =
  qe_questionIndex :: int
  qe_question :: string
  qe_userAnswer :: "string option"
  qe_score :: int

record InterviewReportDTO =
  overallScore :: int
  questionDetails :: "QuestionEvaluation list"

section \<open>The persistence gateway\<close>

text \<open>
  Modelled from the spec: \<^verbatim>\<open>InterviewPersistenceService\<close> and its entities are declared
  outside the service class; only the calls the session service makes are known. A session row keeps the
  session identifier, the subject (resume) identifier, the question count, the serialized
  question list, the progress index and the status. The serialized list is an option:
  \<open>None\<close> stands for a payload the JSON reader rejects.
\<close>

record InterviewSessionEntity =
  e_sessionId :: string
  e_resumeId :: int
  e_totalQuestions :: int
  e_questionsJson :: "InterviewQuestionDTO list option"
  e_currentQuestionIndex :: int
  e_status :: EntityStatus

text \<open>
  Modelled from the spec: an answer row keeps the session identifier, the question index,
  the question text, the category, the answer text and a score placeholder.
\<close>

record InterviewAnswerEntity =
  a_sessionId :: string
  a_questionIndex :: int
  a_question :: string
  a_category :: string
  a_userAnswer :: string
  a_score :: int

text \<open>
  Modelled from the spec: the durable store behind the gateway holds the session rows,
  the most recent first, the answer rows, the resume table as it is read through
  \<^verbatim>\<open>entity.getResume().getResumeText()\<close>, and the saved reports. The reads of the
  store are functions of its content. A read that throws is modelled where the service
  looks the store up for a subject, by the count \<open>reads\<close> of \<open>findUnfinishedSession\<close>
  below; where it looks a session up by its identifier, a throwing read has the outcome
  of a missing row, \<open>INTERVIEW_SESSION_NOT_FOUND\<close>. An unreadable question list is the
  value \<open>None\<close> of the row.
\<close>

record Store =
  sessionRows :: "InterviewSessionEntity list"
  answerRows :: "InterviewAnswerEntity list"
  resumeTexts :: "int \<Rightarrow> string"
  reportRows :: "(string \<times> InterviewReportDTO) list"

text \<open>
  Modelled from the spec: \<^verbatim>\<open>saveSession\<close> writes the metadata row of a new session with
  its questions serialized; a new session has progress index 0 and status \<open>CREATED\<close>.
\<close>

definition persistence_saveSession ::
  "string \<Rightarrow> int \<Rightarrow> int \<Rightarrow> InterviewQuestionDTO list \<Rightarrow> Store \<Rightarrow> Store" where
  "persistence_saveSession sid rid cnt qs db =
     db\<lparr>sessionRows :=
          \<lparr>e_sessionId = sid, e_resumeId = rid, e_totalQuestions = cnt,
           e_questionsJson = Some qs, e_currentQuestionIndex = 0,
           e_status = E_CREATED\<rparr> # sessionRows db\<rparr>"

text \<open>
  Modelled from the spec: \<^verbatim>\<open>findUnfinishedSession\<close> answers the most recent session of
  the subject whose status is \<open>CREATED\<close> or \<open>IN_PROGRESS\<close>.
\<close>

definition unfinishedRow :: "int \<Rightarrow> InterviewSessionEntity \<Rightarrow> bool" where
  "unfinishedRow rid e =
     (e_resumeId e = rid \<and> (e_status e = E_CREATED \<or> e_status e = E_IN_PROGRESS))"

definition persistence_findUnfinishedSession ::
  "Store \<Rightarrow> int \<Rightarrow> InterviewSessionEntity option" where
  "persistence_findUnfinishedSession db rid = find (unfinishedRow rid) (sessionRows db)"

text \<open>Modelled from the spec: \<^verbatim>\<open>findBySessionId\<close> answers the stored record of that identifier.\<close>

definition persistence_findBySessionId ::
  "Store \<Rightarrow> string \<Rightarrow> InterviewSessionEntity option" where
  "persistence_findBySessionId db sid = find (\<lambda>e. e_sessionId e = sid) (sessionRows db)"

text \<open>
  Modelled from the spec: \<^verbatim>\<open>updateSessionStatus\<close> and \<^verbatim>\<open>updateCurrentQuestionIndex\<close>
  overwrite one column of the rows of that session.
\<close>

definition persistence_updateSessionStatus :: "string \<Rightarrow> EntityStatus \<Rightarrow> Store \<Rightarrow> Store" where
  "persistence_updateSessionStatus sid s db =
     db\<lparr>sessionRows :=
          map (\<lambda>e. if e_sessionId e = sid then e\<lparr>e_status := s\<rparr> else e) (sessionRows db)\<rparr>"

definition persistence_updateCurrentQuestionIndex :: "string \<Rightarrow> int \<Rightarrow> Store \<Rightarrow> Store" where
  "persistence_updateCurrentQuestionIndex sid i db =
     db\<lparr>sessionRows :=
          map (\<lambda>e. if e_sessionId e = sid then e\<lparr>e_currentQuestionIndex := i\<rparr> else e)
              (sessionRows db)\<rparr>"

text \<open>
  Modelled from the spec: \<^verbatim>\<open>saveAnswer\<close> stores one answer row per session and index;
  a repeated save at the same index overwrites the stored answer instead of duplicating it.
\<close>

fun upsertAnswer :: "InterviewAnswerEntity \<Rightarrow> InterviewAnswerEntity list \<Rightarrow> InterviewAnswerEntity list" where
  "upsertAnswer r [] = [r]"
| "upsertAnswer r (x # xs) =
     (if a_sessionId x = a_sessionId r \<and> a_questionIndex x = a_questionIndex r
      then r # xs else x # upsertAnswer r xs)"

definition persistence_saveAnswer ::
  "string \<Rightarrow> int \<Rightarrow> string \<Rightarrow> string \<Rightarrow> string \<Rightarrow> int \<Rightarrow> Store \<Rightarrow> Store" where
  "persistence_saveAnswer sid i q c a sc db =
     db\<lparr>answerRows :=
          upsertAnswer \<lparr>a_sessionId = sid, a_questionIndex = i, a_question = q,
                        a_category = c, a_userAnswer = a, a_score = sc\<rparr> (answerRows db)\<rparr>"

text \<open>Modelled from the spec: \<^verbatim>\<open>findAnswersBySessionId\<close> lists the answer rows of a session.\<close>

definition persistence_findAnswersBySessionId ::
  "Store \<Rightarrow> string \<Rightarrow> InterviewAnswerEntity list" where
  "persistence_findAnswersBySessionId db sid = filter (\<lambda>a. a_sessionId a = sid) (answerRows db)"

text \<open>Modelled from the spec: \<^verbatim>\<open>saveReport\<close> stores the report of a session.\<close>

definition persistence_saveReport :: "string \<Rightarrow> InterviewReportDTO \<Rightarrow> Store \<Rightarrow> Store" where
  "persistence_saveReport sid r db = db\<lparr>reportRows := (sid, r) # reportRows db\<rparr>"

text \<open>
  A \<^verbatim>\<open>try { w1; w2; ... } catch (Exception e) { log.warn(...) }\<close> block of store writes:
  \<open>ok\<close> is the number of writes that succeed before the store throws. The writes after
  the failing one are skipped and the exception is swallowed. Every write succeeds when
  \<open>ok\<close> is at least the number of writes.
\<close>

definition bestEffort :: "nat \<Rightarrow> (Store \<Rightarrow> Store) list \<Rightarrow> Store \<Rightarrow> Store" where
  "bestEffort ok ws db = fold (\<lambda>w d. w d) (take ok ws) db"

section \<open>The session service\<close>

text \<open>The cache \<^verbatim>\<open>sessions\<close> (a \<^verbatim>\<open>ConcurrentHashMap\<close>) together with the durable store.\<close>

record ServiceState =
  sessions :: "string \<rightharpoonup> InterviewSession"
  persistence :: Store

definition toDTO :: "InterviewSession \<Rightarrow> InterviewSessionDTO" where
  "toDTO s = \<lparr>dto_sessionId = sessionId s, dto_resumeText = resumeText s,
              dto_totalQuestions = int (length (questions s)),
              dto_currentQuestionIndex = currentIndex s,
              dto_questions = questions s, dto_status = status s\<rparr>"

fun convertStatus :: "EntityStatus \<Rightarrow> SessionStatus" where
  "convertStatus E_CREATED = CREATED"
| "convertStatus E_IN_PROGRESS = IN_PROGRESS"
| "convertStatus E_COMPLETED = COMPLETED"
| "convertStatus E_EVALUATED = EVALUATED"

text \<open>The loop of \<^verbatim>\<open>restoreSessionFromEntity\<close> over the stored answer rows.\<close>

fun applyAnswers ::
  "InterviewAnswerEntity list \<Rightarrow> InterviewQuestionDTO list \<Rightarrow> InterviewQuestionDTO list" where
  "applyAnswers [] qs = qs"
| "applyAnswers (a # as) qs =
     applyAnswers as
       (let index = a_questionIndex a in
        if index \<ge> 0 \<and> index < int (length qs)
        then qs[nat index := withAnswer (qs ! nat index) (a_userAnswer a)]
        else qs)"

text \<open>
  \<^verbatim>\<open>restoreSessionFromEntity\<close>: \<open>None\<close> is the \<^verbatim>\<open>null\<close> returned from the catch block when
  the stored question list cannot be read.
\<close>

definition restoreSessionFromEntity :: "Store \<Rightarrow> InterviewSessionEntity \<Rightarrow> InterviewSession option" where
  "restoreSessionFromEntity db entity =
     (case e_questionsJson entity of
        None \<Rightarrow> None
      | Some qs \<Rightarrow>
          Some \<lparr>sessionId = e_sessionId entity,
                resumeText = resumeTexts db (e_resumeId entity),
                resumeId = Some (e_resumeId entity),
                questions = applyAnswers (persistence_findAnswersBySessionId db (e_sessionId entity)) qs,
                currentIndex = e_currentQuestionIndex entity,
                status = convertStatus (e_status entity)\<rparr>)"

definition restoreSessionFromDatabase :: "Store \<Rightarrow> string \<Rightarrow> InterviewSession option" where
  "restoreSessionFromDatabase db sid =
     (case persistence_findBySessionId db sid of
        None \<Rightarrow> None
      | Some entity \<Rightarrow> restoreSessionFromEntity db entity)"

definition getOrRestoreSession :: "string \<Rightarrow> ServiceState \<Rightarrow> (Failure + InterviewSession) \<times> ServiceState" where
  "getOrRestoreSession sid st =
     (case sessions st sid of
        Some session \<Rightarrow> (Inr session, st)
      | None \<Rightarrow>
          (case restoreSessionFromDatabase (persistence st) sid of
             None \<Rightarrow> (Inl (BusinessException INTERVIEW_SESSION_NOT_FOUND), st)
           | Some session \<Rightarrow> (Inr session, st\<lparr>sessions := (sessions st)(sid \<mapsto> session)\<rparr>)))"

definition getSession :: "string \<Rightarrow> ServiceState \<Rightarrow> Failure + InterviewSessionDTO" where
  "getSession sid st =
     (case sessions st sid of
        Some session \<Rightarrow> Inr (toDTO session)
      | None \<Rightarrow>
          (case restoreSessionFromDatabase (persistence st) sid of
             None \<Rightarrow> Inl (BusinessException INTERVIEW_SESSION_NOT_FOUND)
           | Some session \<Rightarrow> Inr (toDTO session)))"

text \<open>
  \<^verbatim>\<open>findUnfinishedSession\<close>. The whole body sits in a \<^verbatim>\<open>try\<close> whose
  \<^verbatim>\<open>catch (Exception e)\<close> logs and falls through to \<^verbatim>\<open>Optional.empty()\<close>, and
  \<^verbatim>\<open>restoreSessionFromEntity\<close> answers \<^verbatim>\<open>null\<close> from its own catch block. \<open>reads\<close> is
  the number of store reads that answer during the call before one throws: the first read
  is the query for the unfinished session of the subject, the second the query for the
  answer rows of a session that has to be restored. Every read answers when \<open>reads\<close> is
  at least two.
\<close>

definition findUnfinishedSession ::
  "nat \<Rightarrow> int \<Rightarrow> ServiceState \<Rightarrow> InterviewSessionDTO option \<times> ServiceState" where
  "findUnfinishedSession reads rid st =
     (if reads = 0 then (None, st)
      else
        (case persistence_findUnfinishedSession (persistence st) rid of
           None \<Rightarrow> (None, st)
         | Some entity \<Rightarrow>
             (case sessions st (e_sessionId entity) of
                Some session \<Rightarrow> (Some (toDTO session), st)
              | None \<Rightarrow>
                  if reads = 1 then (None, st)
                  else
                    (case restoreSessionFromEntity (persistence st) entity of
                       Some restored \<Rightarrow>
                         (Some (toDTO restored),
                          st\<lparr>sessions := (sessions st)(e_sessionId entity \<mapsto> restored)\<rparr>)
                     | None \<Rightarrow> (None, st)))))"

text \<open>
  \<^verbatim>\<open>createSession\<close>. The question generator is a parameter (\<open>None\<close> when it throws), and
  so is the fresh identifier drawn from \<^verbatim>\<open>UUID.randomUUID()\<close>. \<open>reads\<close> counts the store
  reads that answer while the unfinished session is looked up, \<open>ok\<close> the store writes that
  succeed.
\<close>

definition createNewSession ::
  "(string \<Rightarrow> int \<Rightarrow> InterviewQuestionDTO list option) \<Rightarrow> nat \<Rightarrow> string \<Rightarrow>
   CreateInterviewRequest \<Rightarrow> ServiceState \<Rightarrow> (Failure + InterviewSessionDTO) \<times> ServiceState" where
  "createNewSession gen ok newId request st =
     (case gen (req_resumeText request) (req_questionCount request) of
        None \<Rightarrow> (Inl GenerationFailed, st)
      | Some qs \<Rightarrow>
          (let session = \<lparr>sessionId = newId, resumeText = req_resumeText request,
                          resumeId = req_resumeId request, questions = qs,
                          currentIndex = 0, status = CREATED\<rparr>;
               db = (case req_resumeId request of
                       None \<Rightarrow> persistence st
                     | Some rid \<Rightarrow>
                         bestEffort ok
                           [persistence_saveSession newId rid (req_questionCount request) qs]
                           (persistence st))
           in (Inr (toDTO session),
               st\<lparr>sessions := (sessions st)(newId \<mapsto> session), persistence := db\<rparr>)))"

definition createSession ::
  "(string \<Rightarrow> int \<Rightarrow> InterviewQuestionDTO list option) \<Rightarrow> nat \<Rightarrow> nat \<Rightarrow> string \<Rightarrow>
   CreateInterviewRequest \<Rightarrow> ServiceState \<Rightarrow> (Failure + InterviewSessionDTO) \<times> ServiceState" where
  "createSession gen reads ok newId request st =
     (case req_resumeId request of
        None \<Rightarrow> createNewSession gen ok newId request st
      | Some rid \<Rightarrow>
          (case findUnfinishedSession reads rid st of
             (Some unfinished, st1) \<Rightarrow> (Inr unfinished, st1)
           | (None, st1) \<Rightarrow> createNewSession gen ok newId request st1))"

definition getCurrentQuestion ::
  "nat \<Rightarrow> string \<Rightarrow> ServiceState \<Rightarrow> (Failure + InterviewQuestionDTO option) \<times> ServiceState" where
  "getCurrentQuestion ok sid st =
     (case getOrRestoreSession sid st of
        (Inl err, st1) \<Rightarrow> (Inl err, st1)
      | (Inr session, st1) \<Rightarrow>
          if currentIndex session \<ge> int (length (questions session)) then (Inr None, st1)
          else
            (let started = (status session = CREATED);
                 session1 = (if started then session\<lparr>status := IN_PROGRESS\<rparr> else session);
                 db = (if started \<and> resumeId session \<noteq> None
                       then bestEffort ok [persistence_updateSessionStatus sid E_IN_PROGRESS]
                              (persistence st1)
                       else persistence st1);
                 st2 = st1\<lparr>sessions := (sessions st1)(sid \<mapsto> session1), persistence := db\<rparr>
             in if currentIndex session < 0 then (Inl IndexOutOfBounds, st2)
                else (Inr (Some (questions session ! nat (currentIndex session))), st2)))"

definition submitAnswer ::
  "nat \<Rightarrow> SubmitAnswerRequest \<Rightarrow> ServiceState \<Rightarrow> (Failure + SubmitAnswerResponse) \<times> ServiceState" where
  "submitAnswer ok request st =
     (case getOrRestoreSession (sa_sessionId request) st of
        (Inl err, st1) \<Rightarrow> (Inl err, st1)
      | (Inr session, st1) \<Rightarrow>
          (let index = sa_questionIndex request in
           if index < 0 \<or> index \<ge> int (length (questions session))
           then (Inl (BusinessException INTERVIEW_QUESTION_NOT_FOUND), st1)
           else
             (let q = questions session ! nat index;
                  answeredQuestion = withAnswer q (sa_answer request);
                  qs = (questions session)[nat index := answeredQuestion];
                  cur = index + 1;
                  hasNext = (cur < int (length qs));
                  next = (if hasNext then Some (qs ! nat cur) else None);
                  st' = (if \<not> hasNext then COMPLETED else status session);
                  session1 = session\<lparr>questions := qs, currentIndex := cur, status := st'\<rparr>;
                  db = (if resumeId session \<noteq> None
                        then bestEffort ok
                               [persistence_saveAnswer (sa_sessionId request) index
                                  (question q) (category q) (sa_answer request) 0,
                                persistence_updateCurrentQuestionIndex (sa_sessionId request) cur,
                                persistence_updateSessionStatus (sa_sessionId request)
                                  (if st' = COMPLETED then E_COMPLETED else E_IN_PROGRESS)]
                               (persistence st1)
                        else persistence st1)
              in (Inr \<lparr>hasNextQuestion = hasNext, nextQuestion = next,
                        resp_currentIndex = cur, totalQuestions = int (length qs)\<rparr>,
                  st1\<lparr>sessions := (sessions st1)(sa_sessionId request \<mapsto> session1),
                      persistence := db\<rparr>))))"

definition saveAnswer ::
  "nat \<Rightarrow> SubmitAnswerRequest \<Rightarrow> ServiceState \<Rightarrow> (Failure + unit) \<times> ServiceState" where
  "saveAnswer ok request st =
     (case getOrRestoreSession (sa_sessionId request) st of
        (Inl err, st1) \<Rightarrow> (Inl err, st1)
      | (Inr session, st1) \<Rightarrow>
          (let index = sa_questionIndex request in
           if index < 0 \<or> index \<ge> int (length (questions session))
           then (Inl (BusinessException INTERVIEW_QUESTION_NOT_FOUND), st1)
           else
             (let q = questions session ! nat index;
                  answeredQuestion = withAnswer q (sa_answer request);
                  qs = (questions session)[nat index := answeredQuestion];
                  st' = (if status session = CREATED then IN_PROGRESS else status session);
                  session1 = session\<lparr>questions := qs, status := st'\<rparr>;
                  db = (if resumeId session \<noteq> None
                        then bestEffort ok
                               [persistence_saveAnswer (sa_sessionId request) index
                                  (question q) (category q) (sa_answer request) 0,
                                persistence_updateSessionStatus (sa_sessionId request) E_IN_PROGRESS]
                               (persistence st1)
                        else persistence st1)
              in (Inr (),
                  st1\<lparr>sessions := (sessions st1)(sa_sessionId request \<mapsto> session1),
                      persistence := db\<rparr>))))"

definition completeInterview ::
  "nat \<Rightarrow> string \<Rightarrow> ServiceState \<Rightarrow> (Failure + unit) \<times> ServiceState" where
  "completeInterview ok sid st =
     (case getOrRestoreSession sid st of
        (Inl err, st1) \<Rightarrow> (Inl err, st1)
      | (Inr session, st1) \<Rightarrow>
          if status session = COMPLETED \<or> status session = EVALUATED
          then (Inl (BusinessException INTERVIEW_ALREADY_COMPLETED), st1)
          else
            (let session1 = session\<lparr>status := COMPLETED\<rparr>;
                 db = (if resumeId session \<noteq> None
                       then bestEffort ok [persistence_updateSessionStatus sid E_COMPLETED]
                              (persistence st1)
                       else persistence st1)
             in (Inr (),
                 st1\<lparr>sessions := (sessions st1)(sid \<mapsto> session1), persistence := db\<rparr>)))"

text \<open>
  \<^verbatim>\<open>generateReport\<close>. The evaluator is a parameter; \<open>None\<close> is its exception, which the
  method does not catch, so the status assignment below is not reached.
\<close>

definition generateReport ::
  "(string \<Rightarrow> string \<Rightarrow> InterviewQuestionDTO list \<Rightarrow> InterviewReportDTO option) \<Rightarrow>
   nat \<Rightarrow> string \<Rightarrow> ServiceState \<Rightarrow> (Failure + InterviewReportDTO) \<times> ServiceState" where
  "generateReport evaluateInterview ok sid st =
     (case getOrRestoreSession sid st of
        (Inl err, st1) \<Rightarrow> (Inl err, st1)
      | (Inr session, st1) \<Rightarrow>
          if status session \<noteq> COMPLETED \<and> status session \<noteq> EVALUATED
          then (Inl (BusinessException INTERVIEW_NOT_COMPLETED), st1)
          else
            (case evaluateInterview sid (resumeText session) (questions session) of
               None \<Rightarrow> (Inl EvaluationFailed, st1)
             | Some report \<Rightarrow>
                 (let session1 = session\<lparr>status := EVALUATED\<rparr>;
                      db = (if resumeId session \<noteq> None
                            then bestEffort ok [persistence_saveReport sid report]
                                   (persistence st1)
                            else persistence st1)
                  in (Inr report,
                      st1\<lparr>sessions := (sessions st1)(sid \<mapsto> session1), persistence := db\<rparr>))))"

section \<open>Observations and operation sequences\<close>

text \<open>What a caller can observe of the cached session with a given identifier.\<close>

definition statusOf :: "ServiceState \<Rightarrow> string \<Rightarrow> SessionStatus option" where
  "statusOf st sid = map_option status (sessions st sid)"

definition currentIndexOf :: "ServiceState \<Rightarrow> string \<Rightarrow> int option" where
  "currentIndexOf st sid = map_option currentIndex (sessions st sid)"

definition answersOf :: "ServiceState \<Rightarrow> string \<Rightarrow> string option list option" where
  "answersOf st sid = map_option (\<lambda>s. map userAnswer (questions s)) (sessions st sid)"

text \<open>The order \<open>CREATED < IN_PROGRESS < COMPLETED < EVALUATED\<close> of the state machine.\<close>

fun statusRank :: "SessionStatus \<Rightarrow> nat" where
  "statusRank CREATED = 0"
| "statusRank IN_PROGRESS = 1"
| "statusRank COMPLETED = 2"
| "statusRank EVALUATED = 3"

text \<open>
  The five mutating calls of the caller-facing contract, each with the number of store
  writes that succeed during the call, and the state each leaves behind.
\<close>

datatype Operation =
    GetCurrentQuestion nat string
  | SubmitAnswer nat SubmitAnswerRequest
  | SaveAnswer nat SubmitAnswerRequest
  | CompleteInterview nat string
  | GenerateReport nat string

fun perform ::
  "(string \<Rightarrow> string \<Rightarrow> InterviewQuestionDTO list \<Rightarrow> InterviewReportDTO option) \<Rightarrow>
   Operation \<Rightarrow> ServiceState \<Rightarrow> ServiceState" where
  "perform ev (GetCurrentQuestion ok sid) st = snd (getCurrentQuestion ok sid st)"
| "perform ev (SubmitAnswer ok request) st = snd (submitAnswer ok request st)"
| "perform ev (SaveAnswer ok request) st = snd (saveAnswer ok request st)"
| "perform ev (CompleteInterview ok sid) st = snd (completeInterview ok sid st)"
| "perform ev (GenerateReport ok sid) st = snd (generateReport ev ok sid st)"


text \<open>The request that submits answer \<open>a\<close> at index \<open>i\<close> of session \<open>sid\<close>.\<close>

definition answerAt :: "string \<Rightarrow> int \<Rightarrow> string \<Rightarrow> SubmitAnswerRequest" where
  "answerAt sid i a = \<lparr>sa_sessionId = sid, sa_questionIndex = i, sa_answer = a\<rparr>"

text \<open>
  \<open>n\<close> in-order submissions to session \<open>sid\<close>, at the indices \<open>0, ..., n - 1\<close>, with the
  answers \<open>ans 0, ..., ans (n - 1)\<close>, every store write succeeding.
\<close>

fun submitInOrder :: "string \<Rightarrow> (nat \<Rightarrow> string) \<Rightarrow> nat \<Rightarrow> ServiceState \<Rightarrow> ServiceState" where
  "submitInOrder sid ans 0 st = st"
| "submitInOrder sid ans (Suc n) st =
     snd (submitAnswer 3 (answerAt sid (int n) (ans n)) (submitInOrder sid ans n st))"

text \<open>Cache eviction: the process restarts and only the durable store is left.\<close>

definition evictCache :: "ServiceState \<Rightarrow> ServiceState" where
  "evictCache st = st\<lparr>sessions := Map.empty\<rparr>"

section \<open>Concrete inputs\<close>

definition sampleQuestion :: "nat \<Rightarrow> InterviewQuestionDTO" where
  "sampleQuestion i = \<lparr>questionIndex = int i, question = ''Q'', category = ''Java'',
                       userAnswer = None\<rparr>"

text \<open>A question generator that answers the requested number of questions, at most three.\<close>

definition sampleGenerator :: "string \<Rightarrow> int \<Rightarrow> InterviewQuestionDTO list option" where
  "sampleGenerator text n =
     Some (take (nat n) [sampleQuestion 0, sampleQuestion 1, sampleQuestion 2])"

text \<open>
  Modelled from the spec: the evaluator is an external collaborator; its report has a
  per-question detail that echoes each question and its answer. This one scores nothing.
\<close>

definition echoEvaluator ::
  "string \<Rightarrow> string \<Rightarrow> InterviewQuestionDTO list \<Rightarrow> InterviewReportDTO option" where
  "echoEvaluator sid text qs =
     Some \<lparr>overallScore = 0,
           questionDetails =
             map (\<lambda>q. \<lparr>qe_questionIndex = questionIndex q, qe_question = question q,
                        qe_userAnswer = userAnswer q, qe_score = 0\<rparr>) qs\<rparr>"

definition emptyStore :: Store where
  "emptyStore = \<lparr>sessionRows = [], answerRows = [], resumeTexts = (\<lambda>_. ''cv''),
                 reportRows = []\<rparr>"

definition freshService :: ServiceState where
  "freshService = \<lparr>sessions = Map.empty, persistence = emptyStore\<rparr>"

definition createRequest :: "int \<Rightarrow> int option \<Rightarrow> CreateInterviewRequest" where
  "createRequest n rid = \<lparr>req_resumeText = ''cv'', req_questionCount = n, req_resumeId = rid\<rparr>"

text \<open>A cached session of two questions, the first one answered, and no store record.\<close>

definition sampleSession :: "SessionStatus \<Rightarrow> InterviewSession" where
  "sampleSession s =
     \<lparr>sessionId = ''s1'', resumeText = ''cv'', resumeId = None,
      questions = [(sampleQuestion 0)\<lparr>userAnswer := Some ''first''\<rparr>, sampleQuestion 1],
      currentIndex = 1, status = s\<rparr>"

definition sampleService :: "SessionStatus \<Rightarrow> ServiceState" where
  "sampleService s = \<lparr>sessions = Map.empty(''s1'' \<mapsto> sampleSession s), persistence = emptyStore\<rparr>"

text \<open>
  The service after one \<open>createSession\<close> call for \<open>n\<close> questions, its store reads answering
  and its store write succeeding.
\<close>

definition newSession :: "int \<Rightarrow> int option \<Rightarrow> ServiceState" where
  "newSession n rid =
     snd (createSession sampleGenerator 2 1 ''s1'' (createRequest n rid) freshService)"


text \<open>The state in which a session is resolved again when only the store is left.\<close>

definition restoredFromStore :: "string \<Rightarrow> ServiceState \<Rightarrow> ServiceState" where
  "restoredFromStore sid st = snd (getOrRestoreSession sid (evictCache st))"

section \<open>Invariants and auxiliary notions\<close>

text \<open>The session an operation addresses.\<close>

fun targetOf :: "Operation \<Rightarrow> string" where
  "targetOf (GetCurrentQuestion ok sid) = sid"
| "targetOf (SubmitAnswer ok request) = sa_sessionId request"
| "targetOf (SaveAnswer ok request) = sa_sessionId request"
| "targetOf (CompleteInterview ok sid) = sid"
| "targetOf (GenerateReport ok sid) = sid"



definition cacheKeyed :: "ServiceState \<Rightarrow> bool" where
  "cacheKeyed st = (\<forall>k s. sessions st k = Some s \<longrightarrow> sessionId s = k)"

text \<open>
  No stored session with identifier \<open>y\<close> belongs to subject \<open>rid\<close>; every stored question
  list can be read; and the identifier, the owner and the question list of the session
  rows, in their order.
\<close>

definition otherSubject :: "int \<Rightarrow> string \<Rightarrow> Store \<Rightarrow> bool" where
  "otherSubject rid y db =
     (\<forall>e \<in> set (sessionRows db). e_sessionId e = y \<longrightarrow> e_resumeId e \<noteq> rid)"

definition questionsReadable :: "Store \<Rightarrow> bool" where
  "questionsReadable db = (\<forall>e \<in> set (sessionRows db). e_questionsJson e \<noteq> None)"

definition rowOwners :: "Store \<Rightarrow> (string \<times> int \<times> InterviewQuestionDTO list option) list" where
  "rowOwners db = map (\<lambda>e. (e_sessionId e, e_resumeId e, e_questionsJson e)) (sessionRows db)"

text \<open>
  Invariant 1 of the data model, lower half: no stored session row and no cached session
  has a negative progress index.
\<close>

definition rowsNonnegative :: "Store \<Rightarrow> bool" where
  "rowsNonnegative db = (\<forall>e \<in> set (sessionRows db). 0 \<le> e_currentQuestionIndex e)"

definition nonnegativeProgress :: "ServiceState \<Rightarrow> bool" where
  "nonnegativeProgress st =
     ((\<forall>sid s. sessions st sid = Some s \<longrightarrow> 0 \<le> currentIndex s)
      \<and> rowsNonnegative (persistence st))"

text \<open>
  The question list after the answers \<open>ans 0, ..., ans (n - 1)\<close> have been recorded at the
  indices \<open>0, ..., n - 1\<close>, and the answer row the store keeps for index \<open>i\<close>. Both are
  used for \<open>n\<close> up to the length of the list and \<open>i\<close> below it only.
\<close>

fun answeredUpTo ::
  "(nat \<Rightarrow> string) \<Rightarrow> nat \<Rightarrow> InterviewQuestionDTO list \<Rightarrow> InterviewQuestionDTO list" where
  "answeredUpTo ans 0 qs = qs"
| "answeredUpTo ans (Suc n) qs =
     (answeredUpTo ans n qs)[n := withAnswer (answeredUpTo ans n qs ! n) (ans n)]"

definition answerRow ::
  "string \<Rightarrow> (nat \<Rightarrow> string) \<Rightarrow> InterviewQuestionDTO list \<Rightarrow> nat \<Rightarrow> InterviewAnswerEntity" where
  "answerRow sid ans qs i =
     \<lparr>a_sessionId = sid, a_questionIndex = int i, a_question = question (qs ! i),
      a_category = category (qs ! i), a_userAnswer = ans i, a_score = 0\<rparr>"

section \<open>Auxiliary facts\<close>


lemmas service_defs = createSession_def createNewSession_def findUnfinishedSession_def
  getOrRestoreSession_def restoreSessionFromDatabase_def restoreSessionFromEntity_def
  submitAnswer_def saveAnswer_def completeInterview_def generateReport_def
  getCurrentQuestion_def toDTO_def withAnswer_def bestEffort_def

lemmas store_defs = persistence_saveSession_def persistence_findUnfinishedSession_def
  unfinishedRow_def persistence_findBySessionId_def persistence_updateSessionStatus_def
  persistence_updateCurrentQuestionIndex_def persistence_saveAnswer_def
  persistence_findAnswersBySessionId_def persistence_saveReport_def

lemmas obs_defs = statusOf_def currentIndexOf_def answersOf_def evictCache_def

text \<open>A resolved session sits in the cache afterwards, and resolving does not write to the store.\<close>

lemma getOrRestore_resolved:
  "getOrRestoreSession sid st = (Inr s, st1) \<Longrightarrow>
     sessions st1 sid = Some s \<and> persistence st1 = persistence st"
  by (auto simp: getOrRestoreSession_def split: option.splits)

lemma getOrRestore_again:
  "getOrRestoreSession sid st = (Inr s, st1) \<Longrightarrow> getOrRestoreSession sid st1 = (Inr s, st1)"
  by (auto simp: getOrRestoreSession_def split: option.splits)

lemma sample_resolved:
  "getOrRestoreSession ''s1'' (sampleService x) = (Inr (sampleSession x), sampleService x)"
  by (simp add: getOrRestoreSession_def sampleService_def)

lemma bestEffort_single: "1 \<le> ok \<Longrightarrow> bestEffort ok [w] db = w db"
  by (cases ok) (simp_all add: bestEffort_def)

lemma bestEffort_keeps:
  assumes "P db" and "\<And>w d. w \<in> set ws \<Longrightarrow> P d \<Longrightarrow> P (w d)"
  shows "P (bestEffort ok ws db)"
proof -
  have "P (fold (\<lambda>w d. w d) vs db)" if "set vs \<subseteq> set ws" for vs
    using that assms(1)
  proof (induction vs arbitrary: db)
    case Nil
    then show ?case by simp
  next
    case (Cons v vs)
    from Cons.prems have v: "v \<in> set ws" and vs: "set vs \<subseteq> set ws" by simp_all
    from assms(2)[OF v Cons.prems(2)] have "P (v db)" .
    from Cons.IH[OF vs this] show ?case by simp
  qed
  from this[OF set_take_subset] show ?thesis
    unfolding bestEffort_def .
qed

section \<open>The state an operation leaves behind\<close>


lemma submitAnswer_valid:
  assumes "getOrRestoreSession (sa_sessionId request) st = (Inr s, st1)"
      and "0 \<le> sa_questionIndex request" and "sa_questionIndex request < int (length (questions s))"
  shows "snd (submitAnswer ok request st) =
     st1\<lparr>sessions := (sessions st1)(sa_sessionId request \<mapsto>
            s\<lparr>questions := (questions s)[nat (sa_questionIndex request) :=
                   withAnswer (questions s ! nat (sa_questionIndex request)) (sa_answer request)],
              currentIndex := sa_questionIndex request + 1,
              status := (if sa_questionIndex request + 1 < int (length (questions s))
                         then status s else COMPLETED)\<rparr>),
         persistence :=
           (if resumeId s \<noteq> None
            then bestEffort ok
                   [persistence_saveAnswer (sa_sessionId request) (sa_questionIndex request)
                      (question (questions s ! nat (sa_questionIndex request)))
                      (category (questions s ! nat (sa_questionIndex request)))
                      (sa_answer request) 0,
                    persistence_updateCurrentQuestionIndex (sa_sessionId request)
                      (sa_questionIndex request + 1),
                    persistence_updateSessionStatus (sa_sessionId request)
                      (if sa_questionIndex request + 1 < int (length (questions s))
                          \<and> status s \<noteq> COMPLETED
                       then E_IN_PROGRESS else E_COMPLETED)]
                   (persistence st1)
            else persistence st1)\<rparr>"
  using assms by (simp add: submitAnswer_def Let_def)

lemma saveAnswer_valid:
  assumes "getOrRestoreSession (sa_sessionId request) st = (Inr s, st1)"
      and "0 \<le> sa_questionIndex request" and "sa_questionIndex request < int (length (questions s))"
  shows "snd (saveAnswer ok request st) =
     st1\<lparr>sessions := (sessions st1)(sa_sessionId request \<mapsto>
            s\<lparr>questions := (questions s)[nat (sa_questionIndex request) :=
                   withAnswer (questions s ! nat (sa_questionIndex request)) (sa_answer request)],
              status := (if status s = CREATED then IN_PROGRESS else status s)\<rparr>),
         persistence :=
           (if resumeId s \<noteq> None
            then bestEffort ok
                   [persistence_saveAnswer (sa_sessionId request) (sa_questionIndex request)
                      (question (questions s ! nat (sa_questionIndex request)))
                      (category (questions s ! nat (sa_questionIndex request)))
                      (sa_answer request) 0,
                    persistence_updateSessionStatus (sa_sessionId request) E_IN_PROGRESS]
                   (persistence st1)
            else persistence st1)\<rparr>"
  using assms by (simp add: saveAnswer_def Let_def)

lemma getCurrentQuestion_valid:
  assumes "getOrRestoreSession sid st = (Inr s, st1)"
      and "currentIndex s < int (length (questions s))"
  shows "snd (getCurrentQuestion ok sid st) =
     st1\<lparr>sessions := (sessions st1)(sid \<mapsto>
            (if status s = CREATED then s\<lparr>status := IN_PROGRESS\<rparr> else s)),
         persistence :=
           (if status s = CREATED \<and> resumeId s \<noteq> None
            then bestEffort ok [persistence_updateSessionStatus sid E_IN_PROGRESS] (persistence st1)
            else persistence st1)\<rparr>"
  using assms by (simp add: getCurrentQuestion_def Let_def)

lemma completeInterview_valid:
  assumes "getOrRestoreSession sid st = (Inr s, st1)"
      and "status s \<noteq> COMPLETED" and "status s \<noteq> EVALUATED"
  shows "snd (completeInterview ok sid st) =
     st1\<lparr>sessions := (sessions st1)(sid \<mapsto> s\<lparr>status := COMPLETED\<rparr>),
         persistence :=
           (if resumeId s \<noteq> None
            then bestEffort ok [persistence_updateSessionStatus sid E_COMPLETED] (persistence st1)
            else persistence st1)\<rparr>"
  using assms by (simp add: completeInterview_def Let_def)

lemma generateReport_valid:
  assumes "getOrRestoreSession sid st = (Inr s, st1)"
      and "status s = COMPLETED \<or> status s = EVALUATED"
      and "ev sid (resumeText s) (questions s) = Some report"
  shows "snd (generateReport ev ok sid st) =
     st1\<lparr>sessions := (sessions st1)(sid \<mapsto> s\<lparr>status := EVALUATED\<rparr>),
         persistence :=
           (if resumeId s \<noteq> None
            then bestEffort ok [persistence_saveReport sid report] (persistence st1)
            else persistence st1)\<rparr>"
  using assms by (auto simp add: generateReport_def Let_def)

text \<open>An operation that fails, or finds nothing to do, leaves the state of the resolution.\<close>

lemma operations_otherwise:
  assumes "getOrRestoreSession sid st = (r, st1)"
  shows "r = Inl err \<Longrightarrow> snd (getCurrentQuestion ok sid st) = st1"
    and "r = Inr s \<Longrightarrow> currentIndex s \<ge> int (length (questions s)) \<Longrightarrow>
           snd (getCurrentQuestion ok sid st) = st1"
    and "r = Inl err \<Longrightarrow> snd (completeInterview ok sid st) = st1"
    and "r = Inr s \<Longrightarrow> status s = COMPLETED \<or> status s = EVALUATED \<Longrightarrow>
           snd (completeInterview ok sid st) = st1"
    and "r = Inl err \<Longrightarrow> snd (generateReport ev ok sid st) = st1"
    and "r = Inr s \<Longrightarrow> status s \<noteq> COMPLETED \<and> status s \<noteq> EVALUATED
              \<or> ev sid (resumeText s) (questions s) = None \<Longrightarrow>
           snd (generateReport ev ok sid st) = st1"
  using assms
  by (auto simp add: getCurrentQuestion_def completeInterview_def generateReport_def)

lemma answer_operations_otherwise:
  assumes "getOrRestoreSession (sa_sessionId request) st = (r, st1)"
  shows "r = Inl err \<Longrightarrow> snd (submitAnswer ok request st) = st1"
    and "r = Inr s \<Longrightarrow> sa_questionIndex request < 0
              \<or> sa_questionIndex request \<ge> int (length (questions s)) \<Longrightarrow>
           snd (submitAnswer ok request st) = st1"
    and "r = Inl err \<Longrightarrow> snd (saveAnswer ok request st) = st1"
    and "r = Inr s \<Longrightarrow> sa_questionIndex request < 0
              \<or> sa_questionIndex request \<ge> int (length (questions s)) \<Longrightarrow>
           snd (saveAnswer ok request st) = st1"
  using assms
  by (auto simp add: submitAnswer_def saveAnswer_def)

section \<open>submitAnswer\<close>

text \<open>
  Claim C3. For a session with \<open>L\<close> questions and a question index \<open>i\<close>, \<open>submitAnswer\<close>
  fails with the invalid-index error (\<open>INTERVIEW_QUESTION_NOT_FOUND\<close>) exactly when \<open>i\<close> is
  outside \<open>[0, L)\<close>. On a valid \<open>i\<close> it records the answer text at \<open>questions[i]\<close>,
  overwriting what was there, sets \<open>currentIndex\<close> to \<open>i + 1\<close>, answers
  \<open>hasNext = (i + 1 < L)\<close> with \<open>nextQuestion = questions[i + 1]\<close> when there is a next
  question, \<open>currentIndex = i + 1\<close> and \<open>totalQuestions = L\<close>, and sets the status to
  \<open>COMPLETED\<close> exactly when \<open>i + 1 = L\<close>, leaving it as it was otherwise. This holds
  whatever the store does with the writes of the call.
\<close>

theorem submitAnswer_spec:
  assumes "getOrRestoreSession (sa_sessionId request) st = (Inr s, st1)"
  shows "((fst (submitAnswer ok request st) = Inl (BusinessException INTERVIEW_QUESTION_NOT_FOUND))
            = (sa_questionIndex request < 0
                 \<or> sa_questionIndex request \<ge> int (length (questions s))))
       \<and> (0 \<le> sa_questionIndex request \<and> sa_questionIndex request < int (length (questions s)) \<longrightarrow>
           (\<exists>resp s'. fst (submitAnswer ok request st) = Inr resp
              \<and> sessions (snd (submitAnswer ok request st)) (sa_sessionId request) = Some s'
              \<and> questions s' = (questions s)[nat (sa_questionIndex request) :=
                    (questions s ! nat (sa_questionIndex request))
                       \<lparr>userAnswer := Some (sa_answer request)\<rparr>]
              \<and> userAnswer (questions s' ! nat (sa_questionIndex request)) = Some (sa_answer request)
              \<and> currentIndex s' = sa_questionIndex request + 1
              \<and> hasNextQuestion resp = (sa_questionIndex request + 1 < int (length (questions s)))
              \<and> (hasNextQuestion resp \<longrightarrow>
                    nextQuestion resp = Some (questions s' ! nat (sa_questionIndex request + 1)))
              \<and> (\<not> hasNextQuestion resp \<longrightarrow> nextQuestion resp = None)
              \<and> resp_currentIndex resp = sa_questionIndex request + 1
              \<and> totalQuestions resp = int (length (questions s))
              \<and> length (questions s') = length (questions s)
              \<and> status s' = (if sa_questionIndex request + 1 = int (length (questions s))
                              then COMPLETED else status s)))"
  using assms
  by (auto simp add: submitAnswer_def Let_def withAnswer_def)

theorem submitAnswer_spec_witness:
  "fst (submitAnswer 0 (answerAt ''s1'' 2 ''x'') (sampleService IN_PROGRESS))
     = Inl (BusinessException INTERVIEW_QUESTION_NOT_FOUND)
   \<and> (\<exists>resp s'.
        fst (submitAnswer 0 (answerAt ''s1'' 1 ''second'') (sampleService IN_PROGRESS)) = Inr resp
      \<and> sessions (snd (submitAnswer 0 (answerAt ''s1'' 1 ''second'') (sampleService IN_PROGRESS))) ''s1''
          = Some s'
      \<and> userAnswer (questions s' ! 1) = Some ''second''
      \<and> currentIndex s' = 2 \<and> \<not> hasNextQuestion resp \<and> nextQuestion resp = None
      \<and> resp_currentIndex resp = 2 \<and> totalQuestions resp = 2 \<and> status s' = COMPLETED)"
proof -
  have r1: "getOrRestoreSession (sa_sessionId (answerAt ''s1'' 2 ''x'')) (sampleService IN_PROGRESS)
              = (Inr (sampleSession IN_PROGRESS), sampleService IN_PROGRESS)"
    by (simp add: answerAt_def sample_resolved)
  have r2: "getOrRestoreSession (sa_sessionId (answerAt ''s1'' 1 ''second'')) (sampleService IN_PROGRESS)
              = (Inr (sampleSession IN_PROGRESS), sampleService IN_PROGRESS)"
    by (simp add: answerAt_def sample_resolved)
  have a: "fst (submitAnswer 0 (answerAt ''s1'' 2 ''x'') (sampleService IN_PROGRESS))
             = Inl (BusinessException INTERVIEW_QUESTION_NOT_FOUND)"
    using submitAnswer_spec[OF r1, of 0] by (simp add: answerAt_def sampleSession_def)
  have b: "\<exists>resp s'.
        fst (submitAnswer 0 (answerAt ''s1'' 1 ''second'') (sampleService IN_PROGRESS)) = Inr resp
      \<and> sessions (snd (submitAnswer 0 (answerAt ''s1'' 1 ''second'') (sampleService IN_PROGRESS))) ''s1''
          = Some s'
      \<and> userAnswer (questions s' ! 1) = Some ''second''
      \<and> currentIndex s' = 2 \<and> \<not> hasNextQuestion resp \<and> nextQuestion resp = None
      \<and> resp_currentIndex resp = 2 \<and> totalQuestions resp = 2 \<and> status s' = COMPLETED"
    using submitAnswer_spec[OF r2, of 0] by (auto simp add: answerAt_def sampleSession_def)
  from a b show ?thesis by (rule conjI)
qed

section \<open>Invalid indices\<close>

text \<open>
  Claim C10. A call of \<open>submitAnswer\<close> or \<open>saveAnswer\<close> whose question index is outside
  \<open>[0, len(questions))\<close> fails with the invalid-index error and leaves the session as it
  was: the whole service state is the one in which the session was resolved, so no answer
  is recorded, \<open>currentIndex\<close> and the status keep their values, and nothing is written to
  the store.
\<close>

theorem invalid_index_leaves_state:
  assumes "getOrRestoreSession (sa_sessionId request) st = (Inr s, st1)"
      and "sa_questionIndex request < 0 \<or> sa_questionIndex request \<ge> int (length (questions s))"
  shows "submitAnswer ok request st = (Inl (BusinessException INTERVIEW_QUESTION_NOT_FOUND), st1)
       \<and> saveAnswer ok request st = (Inl (BusinessException INTERVIEW_QUESTION_NOT_FOUND), st1)
       \<and> sessions st1 (sa_sessionId request) = Some s
       \<and> persistence st1 = persistence st"
  using assms getOrRestore_resolved[OF assms(1)]
  by (auto simp add: submitAnswer_def saveAnswer_def Let_def)

theorem invalid_index_leaves_state_witness:
  "submitAnswer 3 (answerAt ''s1'' (-1) ''x'') (sampleService CREATED)
     = (Inl (BusinessException INTERVIEW_QUESTION_NOT_FOUND), sampleService CREATED)
   \<and> saveAnswer 2 (answerAt ''s1'' 2 ''x'') (sampleService CREATED)
     = (Inl (BusinessException INTERVIEW_QUESTION_NOT_FOUND), sampleService CREATED)
   \<and> sessions (sampleService CREATED) ''s1'' = Some (sampleSession CREATED)"
proof -
  have r1: "getOrRestoreSession (sa_sessionId (answerAt ''s1'' (-1) ''x'')) (sampleService CREATED)
              = (Inr (sampleSession CREATED), sampleService CREATED)"
    by (simp add: answerAt_def sample_resolved)
  have i1: "sa_questionIndex (answerAt ''s1'' (-1) ''x'') < 0
              \<or> sa_questionIndex (answerAt ''s1'' (-1) ''x'')
                   \<ge> int (length (questions (sampleSession CREATED)))"
    by (simp add: answerAt_def)
  have r2: "getOrRestoreSession (sa_sessionId (answerAt ''s1'' 2 ''x'')) (sampleService CREATED)
              = (Inr (sampleSession CREATED), sampleService CREATED)"
    by (simp add: answerAt_def sample_resolved)
  have i2: "sa_questionIndex (answerAt ''s1'' 2 ''x'') < 0
              \<or> sa_questionIndex (answerAt ''s1'' 2 ''x'')
                   \<ge> int (length (questions (sampleSession CREATED)))"
    by (simp add: answerAt_def sampleSession_def)
  from invalid_index_leaves_state[OF r1 i1, of 3] invalid_index_leaves_state[OF r2 i2, of 2]
  show ?thesis by (simp add: answerAt_def)
qed

section \<open>completeInterview\<close>

text \<open>
  Claim C7. \<open>completeInterview\<close> (the spec's \<open>completeEarly\<close>) fails with the
  already-completed error exactly when the status is \<open>COMPLETED\<close> or \<open>EVALUATED\<close>.
  Otherwise it succeeds and sets the status to \<open>COMPLETED\<close>, whether or not
  \<open>currentIndex\<close> has reached the number of questions, and changes nothing else of the
  session: \<open>currentIndex\<close> and every recorded answer stay as they were.
\<close>

theorem completeInterview_spec:
  assumes "getOrRestoreSession sid st = (Inr s, st1)"
  shows "((fst (completeInterview ok sid st) = Inl (BusinessException INTERVIEW_ALREADY_COMPLETED))
            = (status s = COMPLETED \<or> status s = EVALUATED))
       \<and> (status s \<noteq> COMPLETED \<and> status s \<noteq> EVALUATED \<longrightarrow>
            fst (completeInterview ok sid st) = Inr ()
          \<and> sessions (snd (completeInterview ok sid st)) sid = Some (s\<lparr>status := COMPLETED\<rparr>)
          \<and> currentIndexOf (snd (completeInterview ok sid st)) sid = Some (currentIndex s)
          \<and> answersOf (snd (completeInterview ok sid st)) sid
              = Some (map userAnswer (questions s)))"
  using assms by (simp add: completeInterview_def Let_def currentIndexOf_def answersOf_def)

theorem completeInterview_spec_witness:
  "fst (completeInterview 0 ''s1'' (sampleService IN_PROGRESS)) = Inr ()
   \<and> statusOf (snd (completeInterview 0 ''s1'' (sampleService IN_PROGRESS))) ''s1'' = Some COMPLETED
   \<and> currentIndexOf (snd (completeInterview 0 ''s1'' (sampleService IN_PROGRESS))) ''s1'' = Some 1
   \<and> answersOf (snd (completeInterview 0 ''s1'' (sampleService IN_PROGRESS))) ''s1''
       = Some [Some ''first'', None]
   \<and> fst (completeInterview 0 ''s1'' (sampleService EVALUATED))
       = Inl (BusinessException INTERVIEW_ALREADY_COMPLETED)"
  using completeInterview_spec[OF sample_resolved, of 0 IN_PROGRESS]
        completeInterview_spec[OF sample_resolved, of 0 EVALUATED]
  by (simp add: sampleSession_def sampleQuestion_def statusOf_def)

section \<open>generateReport\<close>

text \<open>
  Claim C6. \<open>generateReport\<close> fails with the not-completed error exactly when the status
  is neither \<open>COMPLETED\<close> nor \<open>EVALUATED\<close>. When the status allows it and the evaluator
  succeeds, the call returns the evaluator's report and leaves the status \<open>EVALUATED\<close>;
  a further call from that state succeeds again, returns what the evaluator then answers,
  and leaves the status \<open>EVALUATED\<close>.
\<close>

theorem generateReport_spec:
  assumes "getOrRestoreSession sid st = (Inr s, st1)"
  shows "((fst (generateReport ev ok sid st) = Inl (BusinessException INTERVIEW_NOT_COMPLETED))
            = (status s \<noteq> COMPLETED \<and> status s \<noteq> EVALUATED))
       \<and> ((status s = COMPLETED \<or> status s = EVALUATED) \<and>
            ev sid (resumeText s) (questions s) = Some report \<longrightarrow>
            fst (generateReport ev ok sid st) = Inr report
          \<and> sessions (snd (generateReport ev ok sid st)) sid = Some (s\<lparr>status := EVALUATED\<rparr>))
       \<and> ((status s = COMPLETED \<or> status s = EVALUATED) \<and>
            ev sid (resumeText s) (questions s) = Some report \<and>
            ev2 sid (resumeText s) (questions s) = Some report2 \<longrightarrow>
            fst (generateReport ev2 ok2 sid (snd (generateReport ev ok sid st))) = Inr report2
          \<and> sessions (snd (generateReport ev2 ok2 sid (snd (generateReport ev ok sid st)))) sid
              = Some (s\<lparr>status := EVALUATED\<rparr>))"
proof -
  note r = getOrRestore_resolved[OF assms]
  have p1: "(fst (generateReport ev ok sid st) = Inl (BusinessException INTERVIEW_NOT_COMPLETED))
            = (status s \<noteq> COMPLETED \<and> status s \<noteq> EVALUATED)"
    using assms by (auto simp add: generateReport_def Let_def split: option.splits)
  have p2: "fst (generateReport ev ok sid st) = Inr report
          \<and> sessions (snd (generateReport ev ok sid st)) sid = Some (s\<lparr>status := EVALUATED\<rparr>)"
    if "status s = COMPLETED \<or> status s = EVALUATED"
       and "ev sid (resumeText s) (questions s) = Some report" for ev ok report
    using assms that by (auto simp add: generateReport_def Let_def)
  have p3: "fst (generateReport ev2 ok2 sid (snd (generateReport ev ok sid st))) = Inr report2
          \<and> sessions (snd (generateReport ev2 ok2 sid (snd (generateReport ev ok sid st)))) sid
              = Some (s\<lparr>status := EVALUATED\<rparr>)"
    if c: "status s = COMPLETED \<or> status s = EVALUATED"
       and e1: "ev sid (resumeText s) (questions s) = Some report"
       and e2: "ev2 sid (resumeText s) (questions s) = Some report2"
  proof -
    from p2[of ev report ok, OF c e1]
    have "sessions (snd (generateReport ev ok sid st)) sid = Some (s\<lparr>status := EVALUATED\<rparr>)"
      by simp
    then show ?thesis using e2
      by (simp add: generateReport_def[of ev2] getOrRestoreSession_def Let_def)
  qed
  from p1 p2 p3 show ?thesis by blast
qed

theorem generateReport_spec_witness:
  "fst (generateReport echoEvaluator 0 ''s1'' (sampleService IN_PROGRESS))
     = Inl (BusinessException INTERVIEW_NOT_COMPLETED)
   \<and> fst (generateReport echoEvaluator 0 ''s1'' (sampleService COMPLETED))
     = Inr \<lparr>overallScore = 0,
            questionDetails =
              [\<lparr>qe_questionIndex = 0, qe_question = ''Q'', qe_userAnswer = Some ''first'',
                qe_score = 0\<rparr>,
               \<lparr>qe_questionIndex = 1, qe_question = ''Q'', qe_userAnswer = None,
                qe_score = 0\<rparr>]\<rparr>
   \<and> statusOf (snd (generateReport echoEvaluator 0 ''s1'' (sampleService COMPLETED))) ''s1''
       = Some EVALUATED
   \<and> statusOf (snd (generateReport echoEvaluator 0 ''s1''
                  (snd (generateReport echoEvaluator 0 ''s1'' (sampleService COMPLETED))))) ''s1''
       = Some EVALUATED"
proof -
  have e: "echoEvaluator ''s1'' (resumeText (sampleSession COMPLETED))
             (questions (sampleSession COMPLETED))
           = Some \<lparr>overallScore = 0,
            questionDetails =
              [\<lparr>qe_questionIndex = 0, qe_question = ''Q'', qe_userAnswer = Some ''first'',
                qe_score = 0\<rparr>,
               \<lparr>qe_questionIndex = 1, qe_question = ''Q'', qe_userAnswer = None,
                qe_score = 0\<rparr>]\<rparr>"
    by (simp add: echoEvaluator_def sampleSession_def sampleQuestion_def)
  have c: "status (sampleSession COMPLETED) = COMPLETED"
    by (simp add: sampleSession_def)
  have n: "status (sampleSession IN_PROGRESS) = IN_PROGRESS"
    by (simp add: sampleSession_def)
  from generateReport_spec[OF sample_resolved, of echoEvaluator 0 IN_PROGRESS] n
       generateReport_spec[OF sample_resolved, of echoEvaluator 0 COMPLETED _ echoEvaluator _ 0]
       e c
  show ?thesis by (simp add: statusOf_def)
qed

section \<open>getCurrentQuestion\<close>

text \<open>
  Claim C8. For a session that resolves, \<open>getCurrentQuestion\<close> returns none exactly when
  \<open>currentIndex \<ge> len(questions)\<close>, and then changes nothing. Otherwise (with
  \<open>currentIndex\<close> within the list, as invariant 1 of the data model has it) it returns
  \<open>questions[currentIndex]\<close> and moves the status to \<open>IN_PROGRESS\<close> exactly when it was
  \<open>CREATED\<close>. In particular, \<open>submitAnswer\<close> at the index \<open>currentIndex\<close> followed at once
  by \<open>getCurrentQuestion\<close> returns the question at the new \<open>currentIndex\<close>, or none when
  the interview is exhausted.
\<close>

theorem getCurrentQuestion_spec:
  assumes "getOrRestoreSession sid st = (Inr s, st1)"
  shows "((fst (getCurrentQuestion ok sid st) = Inr None)
            = (currentIndex s \<ge> int (length (questions s))))
       \<and> (currentIndex s \<ge> int (length (questions s)) \<longrightarrow> snd (getCurrentQuestion ok sid st) = st1)
       \<and> (0 \<le> currentIndex s \<and> currentIndex s < int (length (questions s)) \<longrightarrow>
            fst (getCurrentQuestion ok sid st) = Inr (Some (questions s ! nat (currentIndex s)))
          \<and> sessions (snd (getCurrentQuestion ok sid st)) sid
              = Some (if status s = CREATED then s\<lparr>status := IN_PROGRESS\<rparr> else s))
       \<and> (0 \<le> currentIndex s \<and> sa_sessionId request = sid
            \<and> sa_questionIndex request = currentIndex s \<longrightarrow>
            (\<exists>s2. sessions (snd (submitAnswer ok1 request st)) sid = Some s2
               \<and> length (questions s2) = length (questions s)
               \<and> currentIndex s2 = (if currentIndex s < int (length (questions s))
                                    then currentIndex s + 1 else currentIndex s)
               \<and> fst (getCurrentQuestion ok2 sid (snd (submitAnswer ok1 request st)))
                   = (if currentIndex s2 < int (length (questions s2))
                      then Inr (Some (questions s2 ! nat (currentIndex s2))) else Inr None)))"
proof -
  note r = getOrRestore_resolved[OF assms]
  have p1: "(fst (getCurrentQuestion ok sid st) = Inr None)
            = (currentIndex s \<ge> int (length (questions s)))"
    using assms by (simp add: getCurrentQuestion_def Let_def)
  have p2: "currentIndex s \<ge> int (length (questions s)) \<longrightarrow> snd (getCurrentQuestion ok sid st) = st1"
    using assms by (simp add: getCurrentQuestion_def Let_def)
  have p3: "0 \<le> currentIndex s \<and> currentIndex s < int (length (questions s)) \<longrightarrow>
            fst (getCurrentQuestion ok sid st) = Inr (Some (questions s ! nat (currentIndex s)))
          \<and> sessions (snd (getCurrentQuestion ok sid st)) sid
              = Some (if status s = CREATED then s\<lparr>status := IN_PROGRESS\<rparr> else s)"
    using assms r by (simp add: getCurrentQuestion_def Let_def)
  have p4: "\<exists>s2. sessions (snd (submitAnswer ok1 request st)) sid = Some s2
               \<and> length (questions s2) = length (questions s)
               \<and> currentIndex s2 = (if currentIndex s < int (length (questions s))
                                    then currentIndex s + 1 else currentIndex s)
               \<and> fst (getCurrentQuestion ok2 sid (snd (submitAnswer ok1 request st)))
                   = (if currentIndex s2 < int (length (questions s2))
                      then Inr (Some (questions s2 ! nat (currentIndex s2))) else Inr None)"
    if nn: "0 \<le> currentIndex s" and sid: "sa_sessionId request = sid"
       and idx: "sa_questionIndex request = currentIndex s"
  proof (cases "currentIndex s < int (length (questions s))")
    case True
    then show ?thesis using assms nn sid idx
      by (simp add: submitAnswer_def getCurrentQuestion_def getOrRestoreSession_def Let_def)
  next
    case False
    then have "snd (submitAnswer ok1 request st) = st1" using assms nn sid idx
      by (simp add: submitAnswer_def Let_def)
    then show ?thesis using getOrRestore_again[OF assms] r False
      by (simp add: getCurrentQuestion_def Let_def)
  qed
  from p1 p2 p3 p4 show ?thesis by blast
qed

theorem getCurrentQuestion_spec_witness:
  "fst (getCurrentQuestion 0 ''s1'' (sampleService CREATED)) = Inr (Some (sampleQuestion 1))
   \<and> statusOf (snd (getCurrentQuestion 0 ''s1'' (sampleService CREATED))) ''s1''
       = Some IN_PROGRESS
   \<and> fst (getCurrentQuestion 0 ''s1''
            (snd (submitAnswer 0 (answerAt ''s1'' 1 ''second'') (sampleService CREATED))))
       = Inr None"
proof -
  have i: "0 \<le> currentIndex (sampleSession CREATED)
           \<and> currentIndex (sampleSession CREATED) < int (length (questions (sampleSession CREATED)))"
    by (simp add: sampleSession_def)
  have q: "0 \<le> currentIndex (sampleSession CREATED)
           \<and> sa_sessionId (answerAt ''s1'' 1 ''second'') = ''s1''
           \<and> sa_questionIndex (answerAt ''s1'' 1 ''second'') = currentIndex (sampleSession CREATED)"
    by (simp add: sampleSession_def answerAt_def)
  from getCurrentQuestion_spec[OF sample_resolved, of 0 CREATED "answerAt ''s1'' 1 ''second''" 0 0] i q
  show ?thesis by (auto simp add: sampleSession_def statusOf_def)
qed

section \<open>The progress index is never negative\<close>

lemma rowsNonnegative_writes:
  assumes "rowsNonnegative db"
  shows "rowsNonnegative (persistence_saveSession sid rid cnt qs db)"
    and "rowsNonnegative (persistence_updateSessionStatus sid x db)"
    and "0 \<le> i \<Longrightarrow> rowsNonnegative (persistence_updateCurrentQuestionIndex sid i db)"
    and "rowsNonnegative (persistence_saveAnswer sid j q c a sc db)"
    and "rowsNonnegative (persistence_saveReport sid r db)"
  using assms by (auto simp: store_defs rowsNonnegative_def)

lemma restoredEntity_nonnegative:
  assumes "rowsNonnegative db" and "e \<in> set (sessionRows db)"
      and "restoreSessionFromEntity db e = Some s"
  shows "0 \<le> currentIndex s"
  using assms
  by (auto simp: restoreSessionFromEntity_def rowsNonnegative_def split: option.splits)

lemma restored_nonnegative:
  assumes "rowsNonnegative db" and "restoreSessionFromDatabase db sid = Some s"
  shows "0 \<le> currentIndex s"
proof -
  from assms(2) obtain e where f: "find (\<lambda>e. e_sessionId e = sid) (sessionRows db) = Some e"
      and r: "restoreSessionFromEntity db e = Some s"
    by (auto simp: restoreSessionFromDatabase_def persistence_findBySessionId_def
        split: option.splits)
  from f have "e \<in> set (sessionRows db)"
    by (auto simp: find_Some_iff)
  from restoredEntity_nonnegative[OF assms(1) this r] show ?thesis .
qed

lemma nonnegativeProgress_put:
  assumes "nonnegativeProgress st1" and "0 \<le> currentIndex s1" and "rowsNonnegative db"
  shows "nonnegativeProgress (st1\<lparr>sessions := (sessions st1)(sid \<mapsto> s1), persistence := db\<rparr>)"
  using assms by (auto simp: nonnegativeProgress_def split: if_splits)

lemma nonnegativeProgress_cache:
  assumes "nonnegativeProgress st1" and "0 \<le> currentIndex s1"
  shows "nonnegativeProgress (st1\<lparr>sessions := (sessions st1)(sid \<mapsto> s1)\<rparr>)"
  using assms by (auto simp: nonnegativeProgress_def split: if_splits)

lemma nonnegativeProgress_rows:
  "nonnegativeProgress st \<Longrightarrow> rowsNonnegative (persistence st)"
  by (simp add: nonnegativeProgress_def)

lemma rowsNonnegative_bestEffort:
  assumes "rowsNonnegative db"
      and "\<And>w d. w \<in> set ws \<Longrightarrow> rowsNonnegative d \<Longrightarrow> rowsNonnegative (w d)"
  shows "rowsNonnegative (if c then bestEffort ok ws db else db)"
  using bestEffort_keeps[of rowsNonnegative db ws ok] assms by simp

lemma getOrRestore_nonnegative:
  assumes "nonnegativeProgress st" and "getOrRestoreSession sid st = (r, st1)"
  shows "nonnegativeProgress st1" and "r = Inr s \<Longrightarrow> 0 \<le> currentIndex s"
proof -
  have rows: "rowsNonnegative (persistence st)"
    using assms(1) by (simp add: nonnegativeProgress_def)
  show "nonnegativeProgress st1"
  proof (cases "sessions st sid")
    case (Some c)
    with assms show ?thesis by (simp add: getOrRestoreSession_def)
  next
    case None
    show ?thesis
    proof (cases "restoreSessionFromDatabase (persistence st) sid")
      case n: None
      with None assms show ?thesis by (simp add: getOrRestoreSession_def)
    next
      case (Some x)
      with None assms(2)
      have "st1 = st\<lparr>sessions := (sessions st)(sid \<mapsto> x)\<rparr>"
        by (simp add: getOrRestoreSession_def)
      then show ?thesis
        using nonnegativeProgress_cache[OF assms(1) restored_nonnegative[OF rows Some]]
        by simp
    qed
  qed
  show "0 \<le> currentIndex s" if "r = Inr s"
  proof (cases "sessions st sid")
    case (Some c)
    with assms that show ?thesis
      by (auto simp: getOrRestoreSession_def nonnegativeProgress_def)
  next
    case None
    with assms(2) that have "restoreSessionFromDatabase (persistence st) sid = Some s"
      by (auto simp: getOrRestoreSession_def split: option.splits)
    from restored_nonnegative[OF rows this] show ?thesis .
  qed
qed

lemma nonnegativeProgress_fresh: "nonnegativeProgress freshService"
  by (simp add: nonnegativeProgress_def rowsNonnegative_def freshService_def emptyStore_def)

lemma perform_keeps_nonnegative:
  assumes "nonnegativeProgress st"
  shows "nonnegativeProgress (perform ev op st)"
proof (cases op)
  case (GetCurrentQuestion ok sid)
  obtain r st1 where g: "getOrRestoreSession sid st = (r, st1)"
    by (cases "getOrRestoreSession sid st")
  note n = getOrRestore_nonnegative[OF assms g]
  show ?thesis
  proof (cases r)
    case (Inl err)
    with operations_otherwise(1)[OF g] n(1) GetCurrentQuestion show ?thesis by simp
  next
    case (Inr s)
    show ?thesis
    proof (cases "currentIndex s < int (length (questions s))")
      case False
      with operations_otherwise(2)[OF g Inr] n(1) GetCurrentQuestion show ?thesis by simp
    next
      case True
      have "0 \<le> currentIndex (if status s = CREATED then s\<lparr>status := IN_PROGRESS\<rparr> else s)"
        using n(2)[OF Inr] by simp
      then show ?thesis
        unfolding GetCurrentQuestion perform.simps getCurrentQuestion_valid[OF g[unfolded Inr] True]
        by (intro nonnegativeProgress_put rowsNonnegative_bestEffort n(1)
              nonnegativeProgress_rows)
           (simp_all add: rowsNonnegative_writes)
    qed
  qed
next
  case (SubmitAnswer ok request)
  obtain r st1 where g: "getOrRestoreSession (sa_sessionId request) st = (r, st1)"
    by (cases "getOrRestoreSession (sa_sessionId request) st")
  note n = getOrRestore_nonnegative[OF assms g]
  show ?thesis
  proof (cases r)
    case (Inl err)
    with answer_operations_otherwise(1)[OF g] n(1) SubmitAnswer show ?thesis by simp
  next
    case (Inr s)
    show ?thesis
    proof (cases "0 \<le> sa_questionIndex request
                    \<and> sa_questionIndex request < int (length (questions s))")
      case False
      then have "sa_questionIndex request < 0
                   \<or> sa_questionIndex request \<ge> int (length (questions s))" by auto
      with answer_operations_otherwise(2)[OF g Inr] n(1) SubmitAnswer show ?thesis by simp
    next
      case True
      then have i: "0 \<le> sa_questionIndex request"
            and j: "sa_questionIndex request < int (length (questions s))" by simp_all
      show ?thesis
        unfolding SubmitAnswer perform.simps submitAnswer_valid[OF g[unfolded Inr] i j]
        by (intro nonnegativeProgress_put rowsNonnegative_bestEffort n(1)
              nonnegativeProgress_rows)
           (use i in \<open>auto simp add: rowsNonnegative_writes\<close>)
    qed
  qed
next
  case (SaveAnswer ok request)
  obtain r st1 where g: "getOrRestoreSession (sa_sessionId request) st = (r, st1)"
    by (cases "getOrRestoreSession (sa_sessionId request) st")
  note n = getOrRestore_nonnegative[OF assms g]
  show ?thesis
  proof (cases r)
    case (Inl err)
    with answer_operations_otherwise(3)[OF g] n(1) SaveAnswer show ?thesis by simp
  next
    case (Inr s)
    show ?thesis
    proof (cases "0 \<le> sa_questionIndex request
                    \<and> sa_questionIndex request < int (length (questions s))")
      case False
      then have "sa_questionIndex request < 0
                   \<or> sa_questionIndex request \<ge> int (length (questions s))" by auto
      with answer_operations_otherwise(4)[OF g Inr] n(1) SaveAnswer show ?thesis by simp
    next
      case True
      then have i: "0 \<le> sa_questionIndex request"
            and j: "sa_questionIndex request < int (length (questions s))" by simp_all
      show ?thesis
        unfolding SaveAnswer perform.simps saveAnswer_valid[OF g[unfolded Inr] i j]
        by (intro nonnegativeProgress_put rowsNonnegative_bestEffort n(1)
              nonnegativeProgress_rows)
           (use n(2)[OF Inr] in \<open>auto simp add: rowsNonnegative_writes\<close>)
    qed
  qed
next
  case (CompleteInterview ok sid)
  obtain r st1 where g: "getOrRestoreSession sid st = (r, st1)"
    by (cases "getOrRestoreSession sid st")
  note n = getOrRestore_nonnegative[OF assms g]
  show ?thesis
  proof (cases r)
    case (Inl err)
    with operations_otherwise(3)[OF g] n(1) CompleteInterview show ?thesis by simp
  next
    case (Inr s)
    show ?thesis
    proof (cases "status s = COMPLETED \<or> status s = EVALUATED")
      case True
      with operations_otherwise(4)[OF g Inr] n(1) CompleteInterview show ?thesis by simp
    next
      case False
      then have a: "status s \<noteq> COMPLETED" and b: "status s \<noteq> EVALUATED" by simp_all
      show ?thesis
        unfolding CompleteInterview perform.simps completeInterview_valid[OF g[unfolded Inr] a b]
        by (intro nonnegativeProgress_put rowsNonnegative_bestEffort n(1)
              nonnegativeProgress_rows)
           (use n(2)[OF Inr] in \<open>auto simp add: rowsNonnegative_writes\<close>)
    qed
  qed
next
  case (GenerateReport ok sid)
  obtain r st1 where g: "getOrRestoreSession sid st = (r, st1)"
    by (cases "getOrRestoreSession sid st")
  note n = getOrRestore_nonnegative[OF assms g]
  show ?thesis
  proof (cases r)
    case (Inl err)
    with operations_otherwise(5)[OF g] n(1) GenerateReport show ?thesis by simp
  next
    case (Inr s)
    show ?thesis
    proof (cases "(status s = COMPLETED \<or> status s = EVALUATED)
                    \<and> ev sid (resumeText s) (questions s) \<noteq> None")
      case False
      then have "status s \<noteq> COMPLETED \<and> status s \<noteq> EVALUATED
                   \<or> ev sid (resumeText s) (questions s) = None" by auto
      with operations_otherwise(6)[OF g Inr] n(1) GenerateReport show ?thesis by simp
    next
      case True
      then obtain report where a: "status s = COMPLETED \<or> status s = EVALUATED"
          and b: "ev sid (resumeText s) (questions s) = Some report" by auto
      show ?thesis
        unfolding GenerateReport perform.simps generateReport_valid[of sid st s st1 ev report, OF g[unfolded Inr] a b]
        by (intro nonnegativeProgress_put rowsNonnegative_bestEffort n(1)
              nonnegativeProgress_rows)
           (use n(2)[OF Inr] in \<open>auto simp add: rowsNonnegative_writes\<close>)
    qed
  qed
qed

lemma findUnfinished_shape:
  "snd (findUnfinishedSession reads rid st) = st
   \<or> (\<exists>e r. e \<in> set (sessionRows (persistence st))
          \<and> restoreSessionFromEntity (persistence st) e = Some r
          \<and> snd (findUnfinishedSession reads rid st)
                = st\<lparr>sessions := (sessions st)(e_sessionId e \<mapsto> r)\<rparr>)"
proof (cases "find (unfinishedRow rid) (sessionRows (persistence st))")
  case None
  then show ?thesis
    by (simp add: findUnfinishedSession_def persistence_findUnfinishedSession_def)
next
  case (Some e)
  then have mem: "e \<in> set (sessionRows (persistence st))"
    by (auto simp: find_Some_iff)
  show ?thesis
  proof (cases "restoreSessionFromEntity (persistence st) e")
    case None
    with Some show ?thesis
      by (simp add: findUnfinishedSession_def persistence_findUnfinishedSession_def
            split: option.splits)
  next
    case r: (Some restored)
    have "snd (findUnfinishedSession reads rid st) = st
          \<or> snd (findUnfinishedSession reads rid st)
                = st\<lparr>sessions := (sessions st)(e_sessionId e \<mapsto> restored)\<rparr>"
      using Some r
      by (simp add: findUnfinishedSession_def persistence_findUnfinishedSession_def
            split: option.splits)
    with mem r show ?thesis by blast
  qed
qed

lemma findUnfinished_keeps_nonnegative:
  assumes "nonnegativeProgress st"
  shows "nonnegativeProgress (snd (findUnfinishedSession reads rid st))"
proof -
  have rows: "rowsNonnegative (persistence st)"
    using assms by (simp add: nonnegativeProgress_def)
  from findUnfinished_shape[of reads rid st] show ?thesis
  proof
    assume "snd (findUnfinishedSession reads rid st) = st"
    with assms show ?thesis by simp
  next
    assume "\<exists>e r. e \<in> set (sessionRows (persistence st))
          \<and> restoreSessionFromEntity (persistence st) e = Some r
          \<and> snd (findUnfinishedSession reads rid st)
                = st\<lparr>sessions := (sessions st)(e_sessionId e \<mapsto> r)\<rparr>"
    then obtain e r where mem: "e \<in> set (sessionRows (persistence st))"
        and r: "restoreSessionFromEntity (persistence st) e = Some r"
        and eq: "snd (findUnfinishedSession reads rid st)
                = st\<lparr>sessions := (sessions st)(e_sessionId e \<mapsto> r)\<rparr>" by blast
    show ?thesis
      unfolding eq
      by (rule nonnegativeProgress_cache[OF assms restoredEntity_nonnegative[OF rows mem r]])
  qed
qed

lemma createNewSession_keeps_nonnegative:
  assumes "nonnegativeProgress st"
  shows "nonnegativeProgress (snd (createNewSession gen ok newId request st))"
proof (cases "gen (req_resumeText request) (req_questionCount request)")
  case None
  with assms show ?thesis by (simp add: createNewSession_def)
next
  case (Some qs)
  have rows: "rowsNonnegative (persistence st)"
    using assms by (simp add: nonnegativeProgress_def)
  have w: "rowsNonnegative
             (bestEffort ok [persistence_saveSession newId rid (req_questionCount request) qs]
                (persistence st))" for rid
    by (rule bestEffort_keeps[of rowsNonnegative, OF rows]) (simp add: rowsNonnegative_writes)
  let ?s = "\<lparr>sessionId = newId, resumeText = req_resumeText request,
             resumeId = req_resumeId request, questions = qs,
             currentIndex = 0, status = CREATED\<rparr>"
  let ?db = "case req_resumeId request of
               None \<Rightarrow> persistence st
             | Some rid \<Rightarrow>
                 bestEffort ok [persistence_saveSession newId rid (req_questionCount request) qs]
                   (persistence st)"
  have a: "snd (createNewSession gen ok newId request st)
             = st\<lparr>sessions := (sessions st)(newId \<mapsto> ?s), persistence := ?db\<rparr>"
    using Some by (simp add: createNewSession_def Let_def)
  have b: "rowsNonnegative ?db"
    using rows w by (simp split: option.splits)
  have c: "0 \<le> currentIndex ?s" by simp
  from nonnegativeProgress_put[OF assms c b] show ?thesis unfolding a .
qed

lemma createSession_keeps_nonnegative:
  assumes "nonnegativeProgress st"
  shows "nonnegativeProgress (snd (createSession gen reads ok newId request st))"
proof (cases "req_resumeId request")
  case None
  then show ?thesis
    using createNewSession_keeps_nonnegative[OF assms] by (simp add: createSession_def)
next
  case (Some rid)
  note f = findUnfinished_keeps_nonnegative[OF assms, of reads rid]
  show ?thesis
  proof (cases "findUnfinishedSession reads rid st")
    case (Pair res st1)
    with f have n1: "nonnegativeProgress st1" by simp
    from Pair Some n1 createNewSession_keeps_nonnegative[OF n1] show ?thesis
      by (cases res) (simp_all add: createSession_def)
  qed
qed

section \<open>Worked scenarios\<close>

text \<open>
  The states of two small interviews, computed once: a session of three questions for
  subject 7 with its first two answers submitted, and a session of one question.
\<close>

lemma newSession_three:
  "newSession 3 (Some 7) =
     \<lparr>sessions = Map.empty(''s1'' \<mapsto>
        \<lparr>sessionId = ''s1'', resumeText = ''cv'', resumeId = Some 7,
         questions = [sampleQuestion 0, sampleQuestion 1, sampleQuestion 2],
         currentIndex = 0, status = CREATED\<rparr>),
      persistence = emptyStore\<lparr>sessionRows :=
        [\<lparr>e_sessionId = ''s1'', e_resumeId = 7, e_totalQuestions = 3,
          e_questionsJson = Some [sampleQuestion 0, sampleQuestion 1, sampleQuestion 2],
          e_currentQuestionIndex = 0, e_status = E_CREATED\<rparr>]\<rparr>\<rparr>"
  by (simp add: newSession_def sampleGenerator_def createRequest_def freshService_def
        emptyStore_def service_defs store_defs)

lemma after_first_submit:
  "submitAnswer 3 (answerAt ''s1'' 0 ''a'') (newSession 3 (Some 7)) =
     (Inr \<lparr>hasNextQuestion = True, nextQuestion = Some (sampleQuestion 1),
           resp_currentIndex = 1, totalQuestions = 3\<rparr>,
      \<lparr>sessions = Map.empty(''s1'' \<mapsto>
        \<lparr>sessionId = ''s1'', resumeText = ''cv'', resumeId = Some 7,
         questions = [(sampleQuestion 0)\<lparr>userAnswer := Some ''a''\<rparr>, sampleQuestion 1,
                      sampleQuestion 2],
         currentIndex = 1, status = CREATED\<rparr>),
      persistence = emptyStore\<lparr>sessionRows :=
        [\<lparr>e_sessionId = ''s1'', e_resumeId = 7, e_totalQuestions = 3,
          e_questionsJson = Some [sampleQuestion 0, sampleQuestion 1, sampleQuestion 2],
          e_currentQuestionIndex = 1, e_status = E_IN_PROGRESS\<rparr>],
        answerRows :=
        [\<lparr>a_sessionId = ''s1'', a_questionIndex = 0, a_question = ''Q'',
          a_category = ''Java'', a_userAnswer = ''a'', a_score = 0\<rparr>]\<rparr>\<rparr>)"
  unfolding newSession_three
  by (simp add: answerAt_def emptyStore_def sampleQuestion_def service_defs store_defs
        numeral_3_eq_3)

lemma after_second_submit:
  "submitAnswer 3 (answerAt ''s1'' 1 ''a'')
       (snd (submitAnswer 3 (answerAt ''s1'' 0 ''a'') (newSession 3 (Some 7)))) =
     (Inr \<lparr>hasNextQuestion = True, nextQuestion = Some (sampleQuestion 2),
           resp_currentIndex = 2, totalQuestions = 3\<rparr>,
      \<lparr>sessions = Map.empty(''s1'' \<mapsto>
        \<lparr>sessionId = ''s1'', resumeText = ''cv'', resumeId = Some 7,
         questions = [(sampleQuestion 0)\<lparr>userAnswer := Some ''a''\<rparr>,
                      (sampleQuestion 1)\<lparr>userAnswer := Some ''a''\<rparr>, sampleQuestion 2],
         currentIndex = 2, status = CREATED\<rparr>),
      persistence = emptyStore\<lparr>sessionRows :=
        [\<lparr>e_sessionId = ''s1'', e_resumeId = 7, e_totalQuestions = 3,
          e_questionsJson = Some [sampleQuestion 0, sampleQuestion 1, sampleQuestion 2],
          e_currentQuestionIndex = 2, e_status = E_IN_PROGRESS\<rparr>],
        answerRows :=
        [\<lparr>a_sessionId = ''s1'', a_questionIndex = 0, a_question = ''Q'',
          a_category = ''Java'', a_userAnswer = ''a'', a_score = 0\<rparr>,
         \<lparr>a_sessionId = ''s1'', a_questionIndex = 1, a_question = ''Q'',
          a_category = ''Java'', a_userAnswer = ''a'', a_score = 0\<rparr>]\<rparr>\<rparr>)"
  unfolding after_first_submit snd_conv
  by (simp add: answerAt_def emptyStore_def sampleQuestion_def service_defs store_defs
        numeral_3_eq_3)

lemma newSession_one:
  "newSession 1 (Some 7) =
     \<lparr>sessions = Map.empty(''s1'' \<mapsto>
        \<lparr>sessionId = ''s1'', resumeText = ''cv'', resumeId = Some 7,
         questions = [sampleQuestion 0], currentIndex = 0, status = CREATED\<rparr>),
      persistence = emptyStore\<lparr>sessionRows :=
        [\<lparr>e_sessionId = ''s1'', e_resumeId = 7, e_totalQuestions = 1,
          e_questionsJson = Some [sampleQuestion 0],
          e_currentQuestionIndex = 0, e_status = E_CREATED\<rparr>]\<rparr>\<rparr>"
  by (simp add: newSession_def sampleGenerator_def createRequest_def freshService_def
        emptyStore_def service_defs store_defs)

lemma one_question_completed:
  "submitInOrder ''s1'' (\<lambda>_. ''a'') 1 (newSession 1 (Some 7)) =
      \<lparr>sessions = Map.empty(''s1'' \<mapsto>
        \<lparr>sessionId = ''s1'', resumeText = ''cv'', resumeId = Some 7,
         questions = [(sampleQuestion 0)\<lparr>userAnswer := Some ''a''\<rparr>],
         currentIndex = 1, status = COMPLETED\<rparr>),
      persistence = emptyStore\<lparr>sessionRows :=
        [\<lparr>e_sessionId = ''s1'', e_resumeId = 7, e_totalQuestions = 1,
          e_questionsJson = Some [sampleQuestion 0],
          e_currentQuestionIndex = 1, e_status = E_COMPLETED\<rparr>],
        answerRows :=
        [\<lparr>a_sessionId = ''s1'', a_questionIndex = 0, a_question = ''Q'',
          a_category = ''Java'', a_userAnswer = ''a'', a_score = 0\<rparr>]\<rparr>\<rparr>"
  unfolding newSession_one
  by (simp add: answerAt_def emptyStore_def sampleQuestion_def service_defs store_defs
        numeral_3_eq_3)

section \<open>createSession\<close>




subsection \<open>What the store writes of an operation keep\<close>

lemma getOrRestore_store: "persistence (snd (getOrRestoreSession sid st)) = persistence st"
  by (simp add: getOrRestoreSession_def split: option.splits)

text \<open>
  A property of the store that each of the four kinds of write addressed to the session
  of an operation keeps is kept by the operation, however many of its writes succeed.
\<close>

lemma perform_store:
  assumes p: "P (persistence st)"
      and status: "\<And>d x. P d \<Longrightarrow> P (persistence_updateSessionStatus (targetOf op) x d)"
      and index: "\<And>d i. P d \<Longrightarrow> P (persistence_updateCurrentQuestionIndex (targetOf op) i d)"
      and answer: "\<And>d j q c a sc. P d \<Longrightarrow> P (persistence_saveAnswer (targetOf op) j q c a sc d)"
      and report: "\<And>d r. P d \<Longrightarrow> P (persistence_saveReport (targetOf op) r d)"
  shows "P (persistence (perform ev op st))"
proof -
  obtain r st1 where g: "getOrRestoreSession (targetOf op) st = (r, st1)"
    by (cases "getOrRestoreSession (targetOf op) st")
  have p1: "P (persistence st1)"
    using getOrRestore_store[of "targetOf op" st] g p by simp
  have be: "P (if c then bestEffort ok ws (persistence st1) else persistence st1)"
    if "\<And>w d. w \<in> set ws \<Longrightarrow> P d \<Longrightarrow> P (w d)" for c ok ws
    using bestEffort_keeps[of P "persistence st1" ws ok] p1 that by simp
  show ?thesis
  proof (cases op)
    case (GetCurrentQuestion ok sid)
    then have t: "targetOf op = sid" by simp
    note g' = g[unfolded t]
    show ?thesis
    proof (cases r)
      case (Inl err)
      with operations_otherwise(1)[OF g'] p1 GetCurrentQuestion show ?thesis by simp
    next
      case (Inr s)
      show ?thesis
      proof (cases "currentIndex s < int (length (questions s))")
        case False
        with operations_otherwise(2)[OF g' Inr] p1 GetCurrentQuestion show ?thesis by simp
      next
        case True
        have "P (if status s = CREATED \<and> resumeId s \<noteq> None
                 then bestEffort ok [persistence_updateSessionStatus sid E_IN_PROGRESS]
                        (persistence st1)
                 else persistence st1)"
          by (rule be) (use status t in auto)
        then show ?thesis
          unfolding GetCurrentQuestion perform.simps
            getCurrentQuestion_valid[OF g'[unfolded Inr] True]
          by simp
      qed
    qed
  next
    case (SubmitAnswer ok request)
    then have t: "targetOf op = sa_sessionId request" by simp
    note g' = g[unfolded t]
    show ?thesis
    proof (cases r)
      case (Inl err)
      with answer_operations_otherwise(1)[OF g'] p1 SubmitAnswer show ?thesis by simp
    next
      case (Inr s)
      show ?thesis
      proof (cases "0 \<le> sa_questionIndex request
                      \<and> sa_questionIndex request < int (length (questions s))")
        case False
        then have "sa_questionIndex request < 0
                     \<or> sa_questionIndex request \<ge> int (length (questions s))" by auto
        with answer_operations_otherwise(2)[OF g' Inr] p1 SubmitAnswer show ?thesis by simp
      next
        case True
        then have i: "0 \<le> sa_questionIndex request"
              and j: "sa_questionIndex request < int (length (questions s))" by simp_all
        have "P (if resumeId s \<noteq> None
                 then bestEffort ok
                        [persistence_saveAnswer (sa_sessionId request) (sa_questionIndex request)
                           (question (questions s ! nat (sa_questionIndex request)))
                           (category (questions s ! nat (sa_questionIndex request)))
                           (sa_answer request) 0,
                         persistence_updateCurrentQuestionIndex (sa_sessionId request)
                           (sa_questionIndex request + 1),
                         persistence_updateSessionStatus (sa_sessionId request)
                           (if sa_questionIndex request + 1 < int (length (questions s))
                               \<and> status s \<noteq> COMPLETED
                            then E_IN_PROGRESS else E_COMPLETED)]
                        (persistence st1)
                 else persistence st1)"
          by (rule be) (use status index answer t in auto)
        then show ?thesis
          unfolding SubmitAnswer perform.simps submitAnswer_valid[OF g'[unfolded Inr] i j]
          by simp
      qed
    qed
  next
    case (SaveAnswer ok request)
    then have t: "targetOf op = sa_sessionId request" by simp
    note g' = g[unfolded t]
    show ?thesis
    proof (cases r)
      case (Inl err)
      with answer_operations_otherwise(3)[OF g'] p1 SaveAnswer show ?thesis by simp
    next
      case (Inr s)
      show ?thesis
      proof (cases "0 \<le> sa_questionIndex request
                      \<and> sa_questionIndex request < int (length (questions s))")
        case False
        then have "sa_questionIndex request < 0
                     \<or> sa_questionIndex request \<ge> int (length (questions s))" by auto
        with answer_operations_otherwise(4)[OF g' Inr] p1 SaveAnswer show ?thesis by simp
      next
        case True
        then have i: "0 \<le> sa_questionIndex request"
              and j: "sa_questionIndex request < int (length (questions s))" by simp_all
        have "P (if resumeId s \<noteq> None
                 then bestEffort ok
                        [persistence_saveAnswer (sa_sessionId request) (sa_questionIndex request)
                           (question (questions s ! nat (sa_questionIndex request)))
                           (category (questions s ! nat (sa_questionIndex request)))
                           (sa_answer request) 0,
                         persistence_updateSessionStatus (sa_sessionId request) E_IN_PROGRESS]
                        (persistence st1)
                 else persistence st1)"
          by (rule be) (use status answer t in auto)
        then show ?thesis
          unfolding SaveAnswer perform.simps saveAnswer_valid[OF g'[unfolded Inr] i j]
          by simp
      qed
    qed
  next
    case (CompleteInterview ok sid)
    then have t: "targetOf op = sid" by simp
    note g' = g[unfolded t]
    show ?thesis
    proof (cases r)
      case (Inl err)
      with operations_otherwise(3)[OF g'] p1 CompleteInterview show ?thesis by simp
    next
      case (Inr s)
      show ?thesis
      proof (cases "status s = COMPLETED \<or> status s = EVALUATED")
        case True
        with operations_otherwise(4)[OF g' Inr] p1 CompleteInterview show ?thesis by simp
      next
        case False
        then have a: "status s \<noteq> COMPLETED" and b: "status s \<noteq> EVALUATED" by simp_all
        have "P (if resumeId s \<noteq> None
                 then bestEffort ok [persistence_updateSessionStatus sid E_COMPLETED]
                        (persistence st1)
                 else persistence st1)"
          by (rule be) (use status t in auto)
        then show ?thesis
          unfolding CompleteInterview perform.simps
            completeInterview_valid[OF g'[unfolded Inr] a b]
          by simp
      qed
    qed
  next
    case (GenerateReport ok sid)
    then have t: "targetOf op = sid" by simp
    note g' = g[unfolded t]
    show ?thesis
    proof (cases r)
      case (Inl err)
      with operations_otherwise(5)[OF g'] p1 GenerateReport show ?thesis by simp
    next
      case (Inr s)
      show ?thesis
      proof (cases "(status s = COMPLETED \<or> status s = EVALUATED)
                      \<and> ev sid (resumeText s) (questions s) \<noteq> None")
        case False
        then have "status s \<noteq> COMPLETED \<and> status s \<noteq> EVALUATED
                     \<or> ev sid (resumeText s) (questions s) = None" by auto
        with operations_otherwise(6)[OF g' Inr] p1 GenerateReport show ?thesis by simp
      next
        case True
        then obtain rep where a: "status s = COMPLETED \<or> status s = EVALUATED"
            and b: "ev sid (resumeText s) (questions s) = Some rep" by auto
        have "P (if resumeId s \<noteq> None
                 then bestEffort ok [persistence_saveReport sid rep] (persistence st1)
                 else persistence st1)"
          by (rule be) (use report t in auto)
        then show ?thesis
          unfolding GenerateReport perform.simps
            generateReport_valid[of sid st s st1 ev rep, OF g'[unfolded Inr] a b]
          by simp
      qed
    qed
  qed
qed

text \<open>
  No operation adds or removes a session row or changes the owner or the question list
  of one.
\<close>

lemma rowOwners_writes:
  "rowOwners (persistence_updateSessionStatus y x d) = rowOwners d"
  "rowOwners (persistence_updateCurrentQuestionIndex y i d) = rowOwners d"
  "rowOwners (persistence_saveAnswer y j q c a sc d) = rowOwners d"
  "rowOwners (persistence_saveReport y r d) = rowOwners d"
  by (simp_all add: rowOwners_def store_defs comp_def if_distrib cong: if_cong)

lemma perform_keeps_rowOwners:
  "rowOwners (persistence (perform ev op st)) = rowOwners (persistence st)"
  by (rule perform_store[where P = "\<lambda>d. rowOwners d = rowOwners (persistence st)"])
     (simp_all add: rowOwners_writes)



lemma otherSubject_owners:
  "otherSubject rid y db = (\<forall>(i, r, q) \<in> set (rowOwners db). i = y \<longrightarrow> r \<noteq> rid)"
  by (auto simp: otherSubject_def rowOwners_def)

lemma questionsReadable_owners:
  "questionsReadable db = (\<forall>(i, r, q) \<in> set (rowOwners db). q \<noteq> None)"
  by (auto simp: questionsReadable_def rowOwners_def)

lemma owners_cong:
  assumes "rowOwners d = rowOwners d'"
  shows "otherSubject rid y d = otherSubject rid y d'"
    and "questionsReadable d = questionsReadable d'"
  using assms by (simp_all add: otherSubject_owners questionsReadable_owners)

subsection \<open>Resuming after further operations\<close>













subsection \<open>Readable question lists\<close>


lemma perform_keeps_readable:
  "questionsReadable (persistence (perform ev op st)) = questionsReadable (persistence st)"
  by (rule owners_cong(2)[OF perform_keeps_rowOwners])



subsection \<open>Cached sessions sit under their own identifiers\<close>


lemma getOrRestore_keyed:
  assumes "cacheKeyed st" and "getOrRestoreSession sid st = (r, st1)"
  shows "cacheKeyed st1" and "r = Inr s \<Longrightarrow> sessionId s = sid"
proof -
  have restored: "sessionId x = sid" if "restoreSessionFromDatabase (persistence st) sid = Some x" for x
  proof -
    from that obtain e where "find (\<lambda>e. e_sessionId e = sid) (sessionRows (persistence st)) = Some e"
        and "restoreSessionFromEntity (persistence st) e = Some x"
      by (auto simp: restoreSessionFromDatabase_def persistence_findBySessionId_def
          split: option.splits)
    then show ?thesis
      by (auto simp: find_Some_iff restoreSessionFromEntity_def split: option.splits)
  qed
  show "cacheKeyed st1"
    using assms restored
    by (auto simp: getOrRestoreSession_def cacheKeyed_def split: option.splits if_splits)
  show "sessionId s = sid" if "r = Inr s"
    using assms that restored
    by (auto simp: getOrRestoreSession_def cacheKeyed_def split: option.splits)
qed

lemma perform_cache_shape:
  "\<exists>r st1. getOrRestoreSession (targetOf op) st = (r, st1)
     \<and> (\<forall>k. k \<noteq> targetOf op \<longrightarrow> sessions (perform ev op st) k = sessions st1 k)
     \<and> (\<forall>e. r = Inl e \<longrightarrow> sessions (perform ev op st) = sessions st1)
     \<and> (\<forall>s. r = Inr s \<longrightarrow>
           (\<exists>s1. sessions (perform ev op st) (targetOf op) = Some s1
                \<and> sessionId s1 = sessionId s))"
proof (cases op)
  case (GetCurrentQuestion ok sid)
  then show ?thesis
    by (cases "getOrRestoreSession sid st")
       (auto simp: getCurrentQuestion_def Let_def split: sum.splits
             dest: getOrRestore_resolved)
next
  case (SubmitAnswer ok request)
  then show ?thesis
    by (cases "getOrRestoreSession (sa_sessionId request) st")
       (auto simp: submitAnswer_def Let_def split: sum.splits
             dest: getOrRestore_resolved)
next
  case (SaveAnswer ok request)
  then show ?thesis
    by (cases "getOrRestoreSession (sa_sessionId request) st")
       (auto simp: saveAnswer_def Let_def split: sum.splits
             dest: getOrRestore_resolved)
next
  case (CompleteInterview ok sid)
  then show ?thesis
    by (cases "getOrRestoreSession sid st")
       (auto simp: completeInterview_def Let_def split: sum.splits
             dest: getOrRestore_resolved)
next
  case (GenerateReport ok sid)
  then show ?thesis
    by (cases "getOrRestoreSession sid st")
       (auto simp: generateReport_def Let_def split: sum.splits option.splits
             dest: getOrRestore_resolved)
qed

lemma perform_keeps_keyed:
  assumes "cacheKeyed st"
  shows "cacheKeyed (perform ev op st)"
proof -
  from perform_cache_shape[of op st ev]
  obtain r st1 where g: "getOrRestoreSession (targetOf op) st = (r, st1)"
    and other: "\<And>k. k \<noteq> targetOf op \<Longrightarrow> sessions (perform ev op st) k = sessions st1 k"
    and failed: "\<And>e. r = Inl e \<Longrightarrow> sessions (perform ev op st) = sessions st1"
    and resolved: "\<And>s. r = Inr s \<Longrightarrow>
           \<exists>s1. sessions (perform ev op st) (targetOf op) = Some s1
                \<and> sessionId s1 = sessionId s"
    by blast
  note k = getOrRestore_keyed[OF assms g]
  show ?thesis
    unfolding cacheKeyed_def
  proof (intro allI impI)
    fix key s'
    assume c: "sessions (perform ev op st) key = Some s'"
    show "sessionId s' = key"
    proof (cases "key = targetOf op")
      case False
      with other[OF False] c k(1) show ?thesis by (simp add: cacheKeyed_def)
    next
      case True
      show ?thesis
      proof (cases r)
        case (Inl e)
        with failed c k(1) show ?thesis by (simp add: cacheKeyed_def)
      next
        case (Inr s)
        with resolved[OF Inr] c True k(2)[OF Inr] show ?thesis by auto
      qed
    qed
  qed
qed

lemma createSession_keeps_keyed:
  assumes "cacheKeyed st"
  shows "cacheKeyed (snd (createSession gen reads ok newId request st))"
proof -
  have f: "cacheKeyed (snd (findUnfinishedSession reads rid st))" for rid
    using assms
    by (auto simp: findUnfinishedSession_def cacheKeyed_def restoreSessionFromEntity_def
          split: option.splits if_splits)
  have n: "cacheKeyed (snd (createNewSession gen ok newId request st'))"
    if "cacheKeyed st'" for st'
    using that
    by (auto simp: createNewSession_def Let_def cacheKeyed_def split: option.splits if_splits)
  show ?thesis
  proof (cases "req_resumeId request")
    case None
    with n[OF assms] show ?thesis by (simp add: createSession_def)
  next
    case (Some rid)
    show ?thesis
    proof (cases "findUnfinishedSession reads rid st")
      case (Pair res st1)
      with f[of rid] have k1: "cacheKeyed st1" by simp
      from Pair Some k1 n[OF k1] show ?thesis
        by (cases res) (simp_all add: createSession_def)
    qed
  qed
qed

subsection \<open>The second call\<close>





section \<open>Restoring after submissions\<close>

text \<open>
  Claim C1, at a concrete input. A session of three questions is created for subject 7 and
  the answer to question 0 is submitted, every store write succeeding. The session in the
  cache and the session rebuilt from the store alone have the same answers and the same
  \<open>currentIndex = 1\<close>, but not the same status: \<open>submitAnswer\<close> writes \<open>IN_PROGRESS\<close> to
  the store and leaves the cached status at \<open>CREATED\<close>.
\<close>

theorem restored_status_differs_after_submit:
  "statusOf (submitInOrder ''s1'' (\<lambda>_. ''a'') 1 (newSession 3 (Some 7))) ''s1'' = Some CREATED
   \<and> statusOf (restoredFromStore ''s1'' (submitInOrder ''s1'' (\<lambda>_. ''a'') 1 (newSession 3 (Some 7))))
        ''s1'' = Some IN_PROGRESS
   \<and> currentIndexOf (submitInOrder ''s1'' (\<lambda>_. ''a'') 1 (newSession 3 (Some 7))) ''s1'' = Some 1
   \<and> currentIndexOf
        (restoredFromStore ''s1'' (submitInOrder ''s1'' (\<lambda>_. ''a'') 1 (newSession 3 (Some 7))))
        ''s1'' = Some 1
   \<and> answersOf (submitInOrder ''s1'' (\<lambda>_. ''a'') 1 (newSession 3 (Some 7))) ''s1''
       = Some [Some ''a'', None, None]
   \<and> answersOf
        (restoredFromStore ''s1'' (submitInOrder ''s1'' (\<lambda>_. ''a'') 1 (newSession 3 (Some 7))))
        ''s1'' = Some [Some ''a'', None, None]"
proof -
  have s: "submitInOrder ''s1'' (\<lambda>_. ''a'') 1 (newSession 3 (Some 7))
             = snd (submitAnswer 3 (answerAt ''s1'' 0 ''a'') (newSession 3 (Some 7)))"
    by simp
  show ?thesis
    unfolding s after_first_submit snd_conv
    by (simp add: restoredFromStore_def obs_defs emptyStore_def sampleQuestion_def
          getOrRestoreSession_def restoreSessionFromDatabase_def restoreSessionFromEntity_def
          withAnswer_def store_defs)
qed

subsection \<open>In-order submissions and the store\<close>

lemma answeredUpTo_length [simp]: "length (answeredUpTo ans n qs) = length qs"
  by (induction n) simp_all

lemma answeredUpTo_prompt:
  "i < length qs \<Longrightarrow>
     question (answeredUpTo ans n qs ! i) = question (qs ! i)
   \<and> category (answeredUpTo ans n qs ! i) = category (qs ! i)"
proof (induction n)
  case 0
  show ?case by simp
next
  case (Suc n)
  show ?case
  proof (cases "n < length qs")
    case True
    with Suc show ?thesis by (auto simp add: nth_list_update withAnswer_def)
  next
    case False
    with Suc show ?thesis by (simp add: list_update_beyond)
  qed
qed

lemma answerRow_key [simp]:
  "a_sessionId (answerRow sid ans qs i) = sid"
  "a_questionIndex (answerRow sid ans qs i) = int i"
  by (simp_all add: answerRow_def)

lemma upsertAnswer_new:
  assumes "\<forall>x \<in> set xs. \<not> (a_sessionId x = a_sessionId r \<and> a_questionIndex x = a_questionIndex r)"
  shows "upsertAnswer r xs = xs @ [r]"
  using assms by (induction xs) auto

lemma rows_of_other_sessions:
  assumes "\<forall>e \<in> set rows. e_sessionId e \<noteq> sid"
  shows "map (\<lambda>e. if e_sessionId e = sid then f e else e) rows = rows"
  using assms by (induction rows) auto

lemma applyAnswers_append:
  "applyAnswers (xs @ ys) qs = applyAnswers ys (applyAnswers xs qs)"
  by (induction xs arbitrary: qs) simp_all

lemma applyAnswers_rows:
  "n \<le> length qs \<Longrightarrow>
     applyAnswers (map (answerRow sid ans qs) [0..<n]) qs = answeredUpTo ans n qs"
  by (induction n) (simp_all add: applyAnswers_append answerRow_def)

lemma state_eqI:
  fixes a b :: ServiceState
  shows "sessions a = sessions b \<Longrightarrow> persistence a = persistence b \<Longrightarrow> a = b"
  by simp

lemma store_eqI:
  fixes a b :: Store
  shows "sessionRows a = sessionRows b \<Longrightarrow> answerRows a = answerRows b \<Longrightarrow>
         resumeTexts a = resumeTexts b \<Longrightarrow> reportRows a = reportRows b \<Longrightarrow> a = b"
  by simp

lemma bestEffort_all_three: "bestEffort 3 [w1, w2, w3] db = w3 (w2 (w1 db))"
  by (simp add: bestEffort_def numeral_3_eq_3)

text \<open>
  The whole service state after a session has been created for a subject under a fresh
  identifier and \<open>n\<close> answers have been submitted in order, every store write succeeding.
\<close>

lemma in_order_submits_state:
  assumes gen: "gen (req_resumeText request) (req_questionCount request) = Some qs"
      and rid: "req_resumeId request = Some rid"
      and ok: "1 \<le> ok"
      and rows: "\<forall>e \<in> set (sessionRows (persistence st)). e_sessionId e \<noteq> newId"
      and answers: "\<forall>a \<in> set (answerRows (persistence st)). a_sessionId a \<noteq> newId"
      and n: "n \<le> length qs"
  shows "submitInOrder newId ans n (snd (createNewSession gen ok newId request st)) =
     st\<lparr>sessions := (sessions st)(newId \<mapsto>
            \<lparr>sessionId = newId, resumeText = req_resumeText request, resumeId = Some rid,
             questions = answeredUpTo ans n qs, currentIndex = int n,
             status = (if 0 < n \<and> n = length qs then COMPLETED else CREATED)\<rparr>),
         persistence := (persistence st)
           \<lparr>sessionRows :=
              \<lparr>e_sessionId = newId, e_resumeId = rid,
               e_totalQuestions = req_questionCount request, e_questionsJson = Some qs,
               e_currentQuestionIndex = int n,
               e_status = (if n = 0 then E_CREATED
                           else if n = length qs then E_COMPLETED else E_IN_PROGRESS)\<rparr>
              # sessionRows (persistence st),
            answerRows := answerRows (persistence st) @ map (answerRow newId ans qs) [0..<n]\<rparr>\<rparr>"
  using n
proof (induction n)
  case 0
  show ?case
    using gen rid ok
    by (intro state_eqI store_eqI)
       (simp_all add: createNewSession_def Let_def bestEffort_single persistence_saveSession_def
          fun_upd_def)
next
  case (Suc n)
  let ?s = "\<lparr>sessionId = newId, resumeText = req_resumeText request, resumeId = Some rid,
             questions = answeredUpTo ans n qs, currentIndex = int n,
             status = (if 0 < n \<and> n = length qs then COMPLETED else CREATED)\<rparr>"
  let ?S = "submitInOrder newId ans n (snd (createNewSession gen ok newId request st))"
  from Suc.prems have lt: "n < length qs" by simp
  then have le: "n \<le> length qs" by simp
  note S = Suc.IH[OF le]
  have g: "getOrRestoreSession (sa_sessionId (answerAt newId (int n) (ans n))) ?S = (Inr ?s, ?S)"
    unfolding S by (simp add: getOrRestoreSession_def answerAt_def)
  have i: "0 \<le> sa_questionIndex (answerAt newId (int n) (ans n))"
    by (simp add: answerAt_def)
  have j: "sa_questionIndex (answerAt newId (int n) (ans n)) < int (length (questions ?s))"
    using lt by (simp add: answerAt_def)
  have new: "\<forall>x \<in> set (answerRows (persistence st) @ map (answerRow newId ans qs) [0..<n]).
               \<not> (a_sessionId x = a_sessionId (answerRow newId ans qs n)
                    \<and> a_questionIndex x = a_questionIndex (answerRow newId ans qs n))"
  proof
    fix x
    assume "x \<in> set (answerRows (persistence st) @ map (answerRow newId ans qs) [0..<n])"
    then consider "x \<in> set (answerRows (persistence st))"
      | k where "k < n" and "x = answerRow newId ans qs k"
      by auto
    then show "\<not> (a_sessionId x = a_sessionId (answerRow newId ans qs n)
                    \<and> a_questionIndex x = a_questionIndex (answerRow newId ans qs n))"
    proof cases
      case 1
      with answers show ?thesis by simp
    next
      case 2
      then show ?thesis by simp
    qed
  qed
  have row: "\<lparr>a_sessionId = newId, a_questionIndex = int n,
              a_question = question (answeredUpTo ans n qs ! n),
              a_category = category (answeredUpTo ans n qs ! n),
              a_userAnswer = ans n, a_score = 0\<rparr> = answerRow newId ans qs n"
    using answeredUpTo_prompt[OF lt, of ans n] by (simp add: answerRow_def)
  have "submitInOrder newId ans (Suc n) (snd (createNewSession gen ok newId request st))
          = snd (submitAnswer 3 (answerAt newId (int n) (ans n)) ?S)"
    by simp
  also have "\<dots> = st\<lparr>sessions := (sessions st)(newId \<mapsto>
            \<lparr>sessionId = newId, resumeText = req_resumeText request, resumeId = Some rid,
             questions = answeredUpTo ans (Suc n) qs, currentIndex = int (Suc n),
             status = (if 0 < Suc n \<and> Suc n = length qs then COMPLETED else CREATED)\<rparr>),
         persistence := (persistence st)
           \<lparr>sessionRows :=
              \<lparr>e_sessionId = newId, e_resumeId = rid,
               e_totalQuestions = req_questionCount request, e_questionsJson = Some qs,
               e_currentQuestionIndex = int (Suc n),
               e_status = (if Suc n = 0 then E_CREATED
                           else if Suc n = length qs then E_COMPLETED else E_IN_PROGRESS)\<rparr>
              # sessionRows (persistence st),
            answerRows := answerRows (persistence st)
                            @ map (answerRow newId ans qs) [0..<Suc n]\<rparr>\<rparr>"
    unfolding submitAnswer_valid[OF g i j]
    unfolding S
    using lt
    by (intro state_eqI store_eqI)
       (auto simp add: answerAt_def bestEffort_all_three persistence_saveAnswer_def
          persistence_updateCurrentQuestionIndex_def persistence_updateSessionStatus_def
          row upsertAnswer_new[OF new] rows_of_other_sessions[OF rows])
  finally show ?case .
qed

lemma restore_after_in_order_submits:
  assumes "\<forall>a \<in> set rows. a_sessionId a \<noteq> newId" and "n \<le> length qs"
  shows "restoreSessionFromDatabase
           (db\<lparr>sessionRows :=
                 \<lparr>e_sessionId = newId, e_resumeId = rid, e_totalQuestions = cnt,
                  e_questionsJson = Some qs, e_currentQuestionIndex = int n, e_status = x\<rparr>
                 # old,
               answerRows := rows @ map (answerRow newId ans qs) [0..<n]\<rparr>) newId
         = Some \<lparr>sessionId = newId, resumeText = resumeTexts db rid, resumeId = Some rid,
                 questions = answeredUpTo ans n qs, currentIndex = int n,
                 status = convertStatus x\<rparr>"
proof -
  have a: "filter (\<lambda>a. a_sessionId a = newId) rows = []"
    using assms(1) by (induction rows) auto
  have b: "filter (\<lambda>a. a_sessionId a = newId) (map (answerRow newId ans qs) [0..<n])
             = map (answerRow newId ans qs) [0..<n]"
    by (simp add: filter_map comp_def answerRow_def)
  show ?thesis
    by (simp add: restoreSessionFromDatabase_def persistence_findBySessionId_def
          restoreSessionFromEntity_def persistence_findAnswersBySessionId_def a b
          applyAnswers_rows[OF assms(2)])
qed

text \<open>
  After the creation of a session for a subject under a fresh
  identifier and \<open>n\<close> in-order submissions, the session rebuilt from the store alone has the
  same question list with the same answers and the same \<open>currentIndex = n\<close> as the cached
  one. The cached status is \<open>COMPLETED\<close> once every question is answered and \<open>CREATED\<close>
  before; the rebuilt status is \<open>CREATED\<close> for \<open>n = 0\<close>, \<open>COMPLETED\<close> once every question is
  answered and \<open>IN_PROGRESS\<close> in between. The two differ exactly when \<open>0 < n < L\<close>.
\<close>

lemma restored_agrees_up_to_status:
  assumes gen: "gen (req_resumeText request) (req_questionCount request) = Some qs"
      and rid: "req_resumeId request = Some rid"
      and ok: "1 \<le> ok"
      and rows: "\<forall>e \<in> set (sessionRows (persistence st)). e_sessionId e \<noteq> newId"
      and answers: "\<forall>a \<in> set (answerRows (persistence st)). a_sessionId a \<noteq> newId"
      and n: "n \<le> length qs"
      and S: "S = submitInOrder newId ans n (snd (createNewSession gen ok newId request st))"
  shows "map_option questions (sessions S newId) = Some (answeredUpTo ans n qs)
       \<and> map_option questions (sessions (restoredFromStore newId S) newId)
           = Some (answeredUpTo ans n qs)
       \<and> currentIndexOf S newId = Some (int n)
       \<and> currentIndexOf (restoredFromStore newId S) newId = Some (int n)
       \<and> statusOf S newId = Some (if 0 < n \<and> n = length qs then COMPLETED else CREATED)
       \<and> statusOf (restoredFromStore newId S) newId
           = Some (if n = 0 then CREATED else if n = length qs then COMPLETED else IN_PROGRESS)"
  unfolding S in_order_submits_state[where gen = gen and request = request,
                OF gen rid ok rows answers n]
  by (simp add: restoredFromStore_def evictCache_def getOrRestoreSession_def
        currentIndexOf_def statusOf_def
        restore_after_in_order_submits[OF answers n])

section \<open>The three-question scenario\<close>

text \<open>
  Claim C4, at its concrete scenario. A session of three questions is created and the
  answers at the indices 0 and 1 are submitted with nothing in between. After the second
  submit \<open>currentIndex = 2\<close> and the response has \<open>hasNext\<close> with the question of index 2
  as the next one; \<open>completeInterview\<close> then succeeds and leaves the status \<open>COMPLETED\<close>,
  and \<open>generateReport\<close> succeeds with an absent answer in the detail for index 2. The
  status after the second submit, however, is still \<open>CREATED\<close>, not \<open>IN_PROGRESS\<close>.
\<close>

theorem three_question_scenario:
  "currentIndexOf (submitInOrder ''s1'' (\<lambda>_. ''a'') 2 (newSession 3 (Some 7))) ''s1'' = Some 2
   \<and> statusOf (submitInOrder ''s1'' (\<lambda>_. ''a'') 2 (newSession 3 (Some 7))) ''s1'' = Some CREATED
   \<and> fst (submitAnswer 3 (answerAt ''s1'' 1 ''a'')
            (submitInOrder ''s1'' (\<lambda>_. ''a'') 1 (newSession 3 (Some 7))))
       = Inr \<lparr>hasNextQuestion = True, nextQuestion = Some (sampleQuestion 2),
              resp_currentIndex = 2, totalQuestions = 3\<rparr>
   \<and> questionIndex (sampleQuestion 2) = 2
   \<and> fst (completeInterview 1 ''s1'' (submitInOrder ''s1'' (\<lambda>_. ''a'') 2 (newSession 3 (Some 7))))
       = Inr ()
   \<and> statusOf (snd (completeInterview 1 ''s1''
                 (submitInOrder ''s1'' (\<lambda>_. ''a'') 2 (newSession 3 (Some 7))))) ''s1''
       = Some COMPLETED
   \<and> map_sum id (\<lambda>r. map qe_userAnswer (questionDetails r))
        (fst (generateReport echoEvaluator 1 ''s1''
           (snd (completeInterview 1 ''s1''
                 (submitInOrder ''s1'' (\<lambda>_. ''a'') 2 (newSession 3 (Some 7)))))))
       = Inr [Some ''a'', Some ''a'', None]
   \<and> statusOf (snd (generateReport echoEvaluator 1 ''s1''
           (snd (completeInterview 1 ''s1''
                 (submitInOrder ''s1'' (\<lambda>_. ''a'') 2 (newSession 3 (Some 7))))))) ''s1''
       = Some EVALUATED"
proof -
  have s1: "submitInOrder ''s1'' (\<lambda>_. ''a'') 1 (newSession 3 (Some 7))
             = snd (submitAnswer 3 (answerAt ''s1'' 0 ''a'') (newSession 3 (Some 7)))"
    by simp
  have s2: "submitInOrder ''s1'' (\<lambda>_. ''a'') 2 (newSession 3 (Some 7))
             = snd (submitAnswer 3 (answerAt ''s1'' 1 ''a'')
                 (snd (submitAnswer 3 (answerAt ''s1'' 0 ''a'') (newSession 3 (Some 7)))))"
    by (simp add: numeral_2_eq_2)
  show ?thesis
    unfolding s1 s2 after_second_submit snd_conv fst_conv
    by (simp add: obs_defs emptyStore_def sampleQuestion_def echoEvaluator_def
          getOrRestoreSession_def completeInterview_def generateReport_def bestEffort_def
          store_defs Let_def)
qed

section \<open>The order of the status\<close>

text \<open>
  Every operation but one keeps the status of a cached session where it is or moves it
  forward. The one exception is \<open>submitAnswer\<close> at the last index of a session that is
  already \<open>EVALUATED\<close>, which sets the status back to \<open>COMPLETED\<close>.
\<close>

lemma status_moves_forward_or_resubmitted:
  assumes "sessions st sid = Some s"
  shows "\<exists>s'. sessions (perform ev op st) sid = Some s'
           \<and> (statusRank (status s) \<le> statusRank (status s')
              \<or> (\<exists>ok request. op = SubmitAnswer ok request \<and> sa_sessionId request = sid
                    \<and> status s = EVALUATED
                    \<and> sa_questionIndex request + 1 = int (length (questions s))
                    \<and> status s' = COMPLETED))"
proof (cases op)
  case (GetCurrentQuestion ok x)
  then show ?thesis using assms
    by (cases "x = sid")
       (auto simp: getCurrentQuestion_def getOrRestoreSession_def Let_def split: option.splits)
next
  case (SubmitAnswer ok r)
  then show ?thesis using assms
    by (cases "sa_sessionId r = sid"; cases "status s")
       (auto simp: submitAnswer_def getOrRestoreSession_def Let_def split: option.splits)
next
  case (SaveAnswer ok r)
  then show ?thesis using assms
    by (cases "sa_sessionId r = sid")
       (auto simp: saveAnswer_def getOrRestoreSession_def Let_def split: option.splits)
next
  case (CompleteInterview ok x)
  then show ?thesis using assms
    by (cases "x = sid"; cases "status s")
       (auto simp: completeInterview_def getOrRestoreSession_def Let_def split: option.splits)
next
  case (GenerateReport ok x)
  then show ?thesis using assms
    by (cases "x = sid"; cases "status s")
       (auto simp: generateReport_def getOrRestoreSession_def Let_def split: option.splits)
qed

text \<open>
  Claim C2, at a concrete input. A session of one question is created, its answer is
  submitted (status \<open>COMPLETED\<close>) and the report is generated (status \<open>EVALUATED\<close>).
  Submitting the answer of index 0 once more succeeds and leaves the status \<open>COMPLETED\<close>:
  the status has moved backward.
\<close>

theorem resubmit_moves_evaluated_back:
  "statusOf (submitInOrder ''s1'' (\<lambda>_. ''a'') 1 (newSession 1 (Some 7))) ''s1'' = Some COMPLETED
   \<and> statusOf (snd (generateReport echoEvaluator 1 ''s1''
                 (submitInOrder ''s1'' (\<lambda>_. ''a'') 1 (newSession 1 (Some 7))))) ''s1''
       = Some EVALUATED
   \<and> fst (submitAnswer 3 (answerAt ''s1'' 0 ''b'')
           (snd (generateReport echoEvaluator 1 ''s1''
                 (submitInOrder ''s1'' (\<lambda>_. ''a'') 1 (newSession 1 (Some 7))))))
       = Inr \<lparr>hasNextQuestion = False, nextQuestion = None, resp_currentIndex = 1,
              totalQuestions = 1\<rparr>
   \<and> statusOf (snd (submitAnswer 3 (answerAt ''s1'' 0 ''b'')
           (snd (generateReport echoEvaluator 1 ''s1''
                 (submitInOrder ''s1'' (\<lambda>_. ''a'') 1 (newSession 1 (Some 7))))))) ''s1''
       = Some COMPLETED
   \<and> statusRank COMPLETED < statusRank EVALUATED"
  unfolding one_question_completed
  by (simp add: obs_defs emptyStore_def sampleQuestion_def echoEvaluator_def answerAt_def
        getOrRestoreSession_def submitAnswer_def generateReport_def bestEffort_def
        withAnswer_def store_defs Let_def)

section \<open>Answers of a completed session\<close>

text \<open>
  Claim C9 as stated fails. A session of one question is created and its answer \<open>a\<close> is
  submitted, so that its status is \<open>COMPLETED\<close>. A \<open>saveAnswer\<close> at index 0 then succeeds
  and replaces the recorded answer by \<open>b\<close>, the status staying \<open>COMPLETED\<close>.
\<close>

theorem completed_answers_overwritten:
  "statusOf (submitInOrder ''s1'' (\<lambda>_. ''a'') 1 (newSession 1 (Some 7))) ''s1'' = Some COMPLETED
   \<and> answersOf (submitInOrder ''s1'' (\<lambda>_. ''a'') 1 (newSession 1 (Some 7))) ''s1''
       = Some [Some ''a'']
   \<and> fst (saveAnswer 2 (answerAt ''s1'' 0 ''b'')
            (submitInOrder ''s1'' (\<lambda>_. ''a'') 1 (newSession 1 (Some 7)))) = Inr ()
   \<and> statusOf (snd (saveAnswer 2 (answerAt ''s1'' 0 ''b'')
            (submitInOrder ''s1'' (\<lambda>_. ''a'') 1 (newSession 1 (Some 7))))) ''s1''
       = Some COMPLETED
   \<and> answersOf (snd (saveAnswer 2 (answerAt ''s1'' 0 ''b'')
            (submitInOrder ''s1'' (\<lambda>_. ''a'') 1 (newSession 1 (Some 7))))) ''s1''
       = Some [Some ''b'']"
  unfolding one_question_completed
  by (simp add: obs_defs emptyStore_def sampleQuestion_def answerAt_def
        getOrRestoreSession_def saveAnswer_def bestEffort_def
        withAnswer_def store_defs Let_def)

text \<open>
  Claim C9, amended. For a session whose status is \<open>COMPLETED\<close> or \<open>EVALUATED\<close>,
  \<open>getCurrentQuestion\<close>, \<open>completeInterview\<close> and \<open>generateReport\<close> leave every recorded
  answer as it is. \<open>submitAnswer\<close> and \<open>saveAnswer\<close> do not look at the status: with a
  valid index they overwrite the answer at that index and leave every other answer as it
  is, and with an invalid index they change no answer.
\<close>

theorem completed_answers_change_only_at_written_index:
  assumes "getOrRestoreSession sid st = (Inr s, st1)"
      and "status s = COMPLETED \<or> status s = EVALUATED"
      and "sa_sessionId request = sid"
  shows "answersOf (snd (getCurrentQuestion ok sid st)) sid = Some (map userAnswer (questions s))
       \<and> answersOf (snd (completeInterview ok sid st)) sid = Some (map userAnswer (questions s))
       \<and> answersOf (snd (generateReport ev ok sid st)) sid = Some (map userAnswer (questions s))
       \<and> answersOf (snd (submitAnswer ok request st)) sid
           = Some (if 0 \<le> sa_questionIndex request
                      \<and> sa_questionIndex request < int (length (questions s))
                   then (map userAnswer (questions s))
                          [nat (sa_questionIndex request) := Some (sa_answer request)]
                   else map userAnswer (questions s))
       \<and> answersOf (snd (saveAnswer ok request st)) sid
           = Some (if 0 \<le> sa_questionIndex request
                      \<and> sa_questionIndex request < int (length (questions s))
                   then (map userAnswer (questions s))
                          [nat (sa_questionIndex request) := Some (sa_answer request)]
                   else map userAnswer (questions s))"
proof -
  note r = getOrRestore_resolved[OF assms(1)]
  have g: "answersOf (snd (getCurrentQuestion ok sid st)) sid = Some (map userAnswer (questions s))"
    using assms(1,2) r by (auto simp: getCurrentQuestion_def answersOf_def Let_def)
  have c: "answersOf (snd (completeInterview ok sid st)) sid = Some (map userAnswer (questions s))"
    using assms(1,2) r by (auto simp: completeInterview_def answersOf_def Let_def)
  have e: "answersOf (snd (generateReport ev ok sid st)) sid = Some (map userAnswer (questions s))"
    using assms(1,2) r
    by (auto simp: generateReport_def answersOf_def Let_def split: option.splits)
  have u: "answersOf (snd (submitAnswer ok request st)) sid
           = Some (if 0 \<le> sa_questionIndex request
                      \<and> sa_questionIndex request < int (length (questions s))
                   then (map userAnswer (questions s))
                          [nat (sa_questionIndex request) := Some (sa_answer request)]
                   else map userAnswer (questions s))"
    using assms(1,3) r
    by (auto simp: submitAnswer_def answersOf_def Let_def withAnswer_def map_update)
  have v: "answersOf (snd (saveAnswer ok request st)) sid
           = Some (if 0 \<le> sa_questionIndex request
                      \<and> sa_questionIndex request < int (length (questions s))
                   then (map userAnswer (questions s))
                          [nat (sa_questionIndex request) := Some (sa_answer request)]
                   else map userAnswer (questions s))"
    using assms(1,3) r
    by (auto simp: saveAnswer_def answersOf_def Let_def withAnswer_def map_update)
  from g c e u v show ?thesis by simp
qed

theorem completed_answers_change_only_at_written_index_witness:
  "answersOf (snd (getCurrentQuestion 0 ''s1'' (sampleService COMPLETED))) ''s1''
     = Some [Some ''first'', None]
   \<and> answersOf (snd (completeInterview 0 ''s1'' (sampleService COMPLETED))) ''s1''
     = Some [Some ''first'', None]
   \<and> answersOf (snd (generateReport echoEvaluator 0 ''s1'' (sampleService COMPLETED))) ''s1''
     = Some [Some ''first'', None]
   \<and> answersOf (snd (submitAnswer 0 (answerAt ''s1'' 0 ''again'') (sampleService COMPLETED))) ''s1''
     = Some [Some ''again'', None]
   \<and> answersOf (snd (saveAnswer 0 (answerAt ''s1'' 0 ''again'') (sampleService COMPLETED))) ''s1''
     = Some [Some ''again'', None]"
proof -
  have c: "status (sampleSession COMPLETED) = COMPLETED \<or> status (sampleSession COMPLETED) = EVALUATED"
    by (simp add: sampleSession_def)
  have i: "sa_sessionId (answerAt ''s1'' 0 ''again'') = ''s1''"
    by (simp add: answerAt_def)
  from completed_answers_change_only_at_written_index[OF sample_resolved c i, of 0 echoEvaluator]
  show ?thesis by (simp add: sampleSession_def sampleQuestion_def answerAt_def)
qed

end
